theory Spec2Isabelle
  imports Main
begin

section \<open>Data model\<close>

text \<open>
  The embedding of \<^verbatim>\<open>packages/polyfills-loader/src/createPolyfillsData.ts\<close>.

  A JavaScript string is a \<^typ>\<open>string\<close>; an optional property is an \<open>option\<close>
  (\<open>None\<close> is \<^verbatim>\<open>undefined\<close>); a property that the code only tests for
  truthiness and that the types declare \<^verbatim>\<open>boolean\<close> is a \<^typ>\<open>bool\<close>
  (an omitted flag is \<open>False\<close>). The interfaces of \<^verbatim>\<open>./types\<close> are not among the
  source files: the records hold the properties that createPolyfillsData reads and
  writes, with the types the data model of the specification gives them.
\<close>

type_synonym FileType = string

text \<open>\<^verbatim>\<open>boolean | 'always'\<close>, the type of the flags esModuleShims and
  regeneratorRuntime. \<open>Off\<close> is \<^verbatim>\<open>false\<close> or an omitted flag.\<close>

datatype flag = Off | On | Always

text \<open>\<^verbatim>\<open>path: string | string[]\<close> of a PolyfillConfig.\<close>

datatype paths = Path string | Paths "string list"

record PolyfillConfig =
  name :: "string option"
  path :: "paths option"
  test :: "string option"
  fileType :: "FileType option"
  minify :: bool
  initializer :: "string option"

record PolyfillFile =
  name :: string
  type :: FileType
  path :: string
  content :: string
  test :: "string option"
  initializer :: "string option"

record File =
  type :: FileType
  path :: string

record ModernEntrypoint =
  files :: "File list option"

record LegacyEntrypoint =
  test :: string
  files :: "File list"

record PolyfillsConfig =
  custom :: "PolyfillConfig list option"
  hash :: "bool option"
  coreJs :: bool
  URLPattern :: bool
  esModuleShims :: flag
  constructibleStylesheets :: bool
  regeneratorRuntime :: flag
  fetch :: bool
  abortController :: bool
  systemjs :: bool
  systemjsExtended :: bool
  dynamicImport :: bool
  intersectionObserver :: bool
  resizeObserver :: bool
  scopedCustomElementRegistry :: bool
  webcomponents :: bool
  shadyCssCustomStyle :: bool

record PolyfillsLoaderConfig =
  modern :: "ModernEntrypoint option"
  legacy :: "LegacyEntrypoint list option"
  polyfills :: "PolyfillsConfig option"
  polyfillsDir :: "string option"

text \<open>Every \<^verbatim>\<open>throw\<close> of the source is an error value. \<open>Error m\<close> is
  \<^verbatim>\<open>new Error(m)\<close> thrown by createPolyfillsData itself; the other three are the
  exceptions of the functions it calls: \<^verbatim>\<open>require.resolve(request)\<close> that finds no
  module, \<^verbatim>\<open>fs.readFileSync(path)\<close> that throws, and the promise of
  \<^verbatim>\<open>Terser.minify(code)\<close> that rejects.\<close>

datatype error =
    Error string
  | ModuleNotFound string
  | ReadFailure string
  | MinifyFailure string

text \<open>What createPolyfillsData takes from outside the file: Node's module resolution
  and file system, Terser, and the imports from \<^verbatim>\<open>./utils\<close> (the hash function,
  the test expression noModuleSupportTest and the two members of fileTypes the code
  names). \<open>None\<close> is a call that throws. \<^verbatim>\<open>Terser.minify\<close> is awaited: \<open>None\<close> is
  a rejected promise, \<open>Some code\<close> the \<^verbatim>\<open>code\<close> property of the output it resolves to
  (a string, for the options of line 229).\<close>

record env =
  require_resolve :: "string \<Rightarrow> string option"
  path_resolve :: "string \<Rightarrow> string"
  existsSync :: "string \<Rightarrow> bool"
  isFile :: "string \<Rightarrow> bool"
  readFileSync :: "string \<Rightarrow> string option"
  Terser_minify :: "string \<Rightarrow> string option"
  createContentHash :: "string \<Rightarrow> string"
  noModuleSupportTest :: string
  fileTypes_SCRIPT :: FileType
  fileTypes_SYSTEMJS :: FileType

text \<open>The calls to Node's \<^verbatim>\<open>fs\<close> module, in the order they are made: the file I/O of
  createPolyfillsData. (\<^verbatim>\<open>require.resolve\<close> is the source locator, and is not logged.)\<close>

datatype fs_call = ExistsSync string | StatSync string | ReadFileSync string

section \<open>String and array helpers of JavaScript\<close>

text \<open>\<^verbatim>\<open>xs.join(sep)\<close> on an array of strings.\<close>

fun join :: "string \<Rightarrow> string list \<Rightarrow> string" where
  "join sep [] = []"
| "join sep [x] = x"
| "join sep (x # y # ys) = x @ sep @ join sep (y # ys)"

text \<open>\<^verbatim>\<open>s.split(c)\<close> for a one-character separator: never the empty array.\<close>

fun split :: "char \<Rightarrow> string \<Rightarrow> string list" where
  "split c [] = [[]]"
| "split c (x # xs) =
     (case split c xs of
        [] \<Rightarrow> [[x]]
      | l # ls \<Rightarrow> if x = c then [] # l # ls else (x # l) # ls)"

definition startsWith :: "string \<Rightarrow> string \<Rightarrow> bool" where
  "startsWith s p = (take (length p) s = p)"

definition newline :: string where
  "newline = [CHR 0x0A]"

section \<open>Sequencing of calls that may throw\<close>

definition and_then :: "error + 'a \<Rightarrow> ('a \<Rightarrow> error + 'b) \<Rightarrow> error + 'b" where
  "and_then m f = (case m of Inl e \<Rightarrow> Inl e | Inr x \<Rightarrow> f x)"

text \<open>The same for code that calls \<^verbatim>\<open>fs\<close>: the calls made are logged, also when the
  code throws.\<close>

type_synonym 'a io = "fs_call list \<times> (error + 'a)"

definition io_then :: "'a io \<Rightarrow> ('a \<Rightarrow> 'b io) \<Rightarrow> 'b io" where
  "io_then m f =
     (case m of
        (calls, Inl e) \<Rightarrow> (calls, Inl e)
      | (calls, Inr x) \<Rightarrow> (case f x of (calls', r) \<Rightarrow> (calls @ calls', r)))"

text \<open>A loop (or \<^verbatim>\<open>map\<close>) over an array whose body may throw: the results in order,
  or the first exception.\<close>

fun for_each :: "('a \<Rightarrow> 'b io) \<Rightarrow> 'a list \<Rightarrow> 'b list io" where
  "for_each f [] = ([], Inr [])"
| "for_each f (x # xs) =
     io_then (f x) (\<lambda>y. io_then (for_each f xs) (\<lambda>ys. ([], Inr (y # ys))))"

section \<open>The config interpreter: lines 7 to 197\<close>

text \<open>\<^verbatim>\<open>const { polyfills = {} } = cfg\<close>\<close>

definition no_polyfills :: PolyfillsConfig where
  "no_polyfills =
     \<lparr> custom = None, hash = None, coreJs = False, URLPattern = False,
       esModuleShims = Off, constructibleStylesheets = False, regeneratorRuntime = Off,
       fetch = False, abortController = False, systemjs = False,
       systemjsExtended = False, dynamicImport = False, intersectionObserver = False,
       resizeObserver = False, scopedCustomElementRegistry = False,
       webcomponents = False, shadyCssCustomStyle = False \<rparr>"

definition polyfills_of :: "PolyfillsLoaderConfig \<Rightarrow> PolyfillsConfig" where
  "polyfills_of cfg = (case polyfills cfg of None \<Rightarrow> no_polyfills | Some p \<Rightarrow> p)"

definition resolve :: "env \<Rightarrow> string \<Rightarrow> error + string" where
  "resolve env request =
     (case require_resolve env request of
        None \<Rightarrow> Inl (ModuleNotFound request)
      | Some p \<Rightarrow> Inr p)"

text \<open>An object literal \<^verbatim>\<open>{ name, path, test, minify, initializer }\<close> of the source
  (no fileType is ever given there).\<close>

definition polyfillConfig ::
  "string \<Rightarrow> string option \<Rightarrow> paths \<Rightarrow> bool \<Rightarrow> string option \<Rightarrow> PolyfillConfig" where
  "polyfillConfig n t p m i =
     \<lparr> PolyfillConfig.name = Some n, PolyfillConfig.path = Some p,
       PolyfillConfig.test = t, fileType = None, minify = m,
       PolyfillConfig.initializer = i \<rparr>"

text \<open>
  Each \<^verbatim>\<open>if\<close> block of createPolyfillsData is a function from the configuration to
  the entries the block pushes onto \<^verbatim>\<open>polyfillConfigs\<close>, or to the exception it
  throws. The argument of \<^verbatim>\<open>addPolyfillConfig\<close> is evaluated before the call, so an
  exception of \<^verbatim>\<open>require.resolve\<close> never reaches the \<^verbatim>\<open>catch\<close> in it, and
  \<^verbatim>\<open>push\<close> does not throw: addPolyfillConfig is \<^verbatim>\<open>push\<close>.
\<close>

type_synonym block = "env \<Rightarrow> PolyfillsLoaderConfig \<Rightarrow> error + PolyfillConfig list"

definition coreJs_block :: block where
  "coreJs_block env cfg =
     (if coreJs (polyfills_of cfg) then
        and_then (resolve env ''core-js-bundle/minified.js'') (\<lambda>p.
          Inr [polyfillConfig ''core-js'' (Some (noModuleSupportTest env)) (Path p) False None])
      else Inr [])"

definition URLPattern_block :: block where
  \<open>URLPattern_block env cfg =
     (if URLPattern (polyfills_of cfg) then
        and_then (resolve env ''urlpattern-polyfill'') (\<lambda>p.
          Inr [polyfillConfig ''urlpattern-polyfill'' (Some ''"URLPattern" in window'')
                 (Path p) False None])
      else Inr [])\<close>

definition esModuleShims_block :: block where
  "esModuleShims_block env cfg =
     (if esModuleShims (polyfills_of cfg) \<noteq> Off then
        and_then (resolve env ''es-module-shims'') (\<lambda>p.
          Inr [polyfillConfig ''es-module-shims''
                 (if esModuleShims (polyfills_of cfg) \<noteq> Always then Some ''1'' else None)
                 (Path p) False None])
      else Inr [])"

definition constructibleStylesheets_block :: block where
  \<open>constructibleStylesheets_block env cfg =
     (if constructibleStylesheets (polyfills_of cfg) then
        and_then (resolve env ''construct-style-sheets-polyfill'') (\<lambda>p.
          Inr [polyfillConfig ''constructible-style-sheets-polyfill''
                 (Some ''!("adoptedStyleSheets" in document)'') (Path p) False None])
      else Inr [])\<close>

definition regeneratorRuntime_block :: block where
  "regeneratorRuntime_block env cfg =
     (if regeneratorRuntime (polyfills_of cfg) \<noteq> Off then
        and_then (resolve env ''regenerator-runtime/runtime'') (\<lambda>p.
          Inr [polyfillConfig ''regenerator-runtime''
                 (if regeneratorRuntime (polyfills_of cfg) \<noteq> Always
                  then Some (noModuleSupportTest env) else None)
                 (Path p) False None])
      else Inr [])"

definition fetch_block :: block where
  "fetch_block env cfg =
     (if fetch (polyfills_of cfg) then
        and_then
          (if abortController (polyfills_of cfg) then
             and_then (resolve env ''whatwg-fetch/dist/fetch.umd.js'') (\<lambda>p1.
             and_then (resolve env ''abortcontroller-polyfill/dist/umd-polyfill.js'') (\<lambda>p2.
               Inr [p1, p2]))
           else
             and_then (resolve env ''whatwg-fetch/dist/fetch.umd.js'') (\<lambda>p1. Inr [p1]))
          (\<lambda>ps.
             Inr [polyfillConfig ''fetch''
                    (Some (''!('fetch' in window)'' @
                       (if abortController (polyfills_of cfg)
                        then '' || !('Request' in window) || !('signal' in window.Request.prototype)''
                        else [])))
                    (Paths ps) True None])
      else Inr [])"

text \<open>Lines 85 to 87.\<close>

definition abortController_check :: block where
  "abortController_check env cfg =
     (if abortController (polyfills_of cfg) \<and> \<not> fetch (polyfills_of cfg)
      then Inl (Error ''Cannot polyfill AbortController without fetch.'')
      else Inr [])"

text \<open>\<^verbatim>\<open>cfg.polyfills && cfg.polyfills.custom &&
  cfg.polyfills.custom.find(c => c.name === 'systemjs')\<close>, as a truth value.\<close>

definition hasSystemJs :: "PolyfillsLoaderConfig \<Rightarrow> bool" where
  "hasSystemJs cfg =
     (case polyfills cfg of
        None \<Rightarrow> False
      | Some p \<Rightarrow>
          (case custom p of
             None \<Rightarrow> False
           | Some cs \<Rightarrow> list_ex (\<lambda>c. PolyfillConfig.name c = Some ''systemjs'') cs))"

text \<open>Modelled from the spec: \<^verbatim>\<open>hasFileOfType\<close> of \<^verbatim>\<open>./utils\<close>, which is not
  among the source files. The spec: the module-loader fallback is included when "at
  least one declared legacy/modern output file is of the module-loader file type".\<close>

definition hasFileOfType :: "PolyfillsLoaderConfig \<Rightarrow> FileType \<Rightarrow> bool" where
  "hasFileOfType cfg t =
     ((case modern cfg of
         None \<Rightarrow> False
       | Some m \<Rightarrow>
           (case ModernEntrypoint.files m of
              None \<Rightarrow> False
            | Some fs \<Rightarrow> list_ex (\<lambda>f. File.type f = t) fs))
      \<or> (case legacy cfg of
            None \<Rightarrow> False
          | Some es \<Rightarrow>
              list_ex (\<lambda>e. list_ex (\<lambda>f. File.type f = t) (LegacyEntrypoint.files e)) es))"

text \<open>\<^verbatim>\<open>cfg.modern && cfg.modern.files &&
  cfg.modern.files.some(f => f.type === fileTypes.SYSTEMJS)\<close>, as a truth value.\<close>

definition alwaysLoad :: "env \<Rightarrow> PolyfillsLoaderConfig \<Rightarrow> bool" where
  "alwaysLoad env cfg =
     (case modern cfg of
        None \<Rightarrow> False
      | Some m \<Rightarrow>
          (case ModernEntrypoint.files m of
             None \<Rightarrow> False
           | Some fs \<Rightarrow> list_ex (\<lambda>f. File.type f = fileTypes_SYSTEMJS env) fs))"

definition systemjs_block :: block where
  "systemjs_block env cfg =
     (if systemjs (polyfills_of cfg) \<or> systemjsExtended (polyfills_of cfg)
         \<or> (\<not> hasSystemJs cfg \<and> hasFileOfType cfg (fileTypes_SYSTEMJS env))
      then
        (let name = ''systemjs'';
             test = (if alwaysLoad env cfg \<or> legacy cfg = None then None
                     else Some (join '' || '' (map LegacyEntrypoint.test (the (legacy cfg)))))
         in if systemjsExtended (polyfills_of cfg) then
              and_then (resolve env ''systemjs/dist/system.min.js'') (\<lambda>p.
                Inr [polyfillConfig name test (Path p) False None])
            else
              and_then (resolve env ''systemjs/dist/s.min.js'') (\<lambda>p.
                Inr [polyfillConfig name test (Path p) False None]))
      else Inr [])"

definition dynamicImport_block :: block where
  "dynamicImport_block env cfg =
     (if dynamicImport (polyfills_of cfg) then
        and_then (resolve env ''dynamic-import-polyfill/dist/dynamic-import-polyfill.umd.js'') (\<lambda>p.
          Inr [polyfillConfig ''dynamic-import''
                 (Some ('''noModule' in HTMLScriptElement.prototype && '' @
                        ''(function () { try { Function('window.importShim = s => import(s);').call(); return false; } catch (_) { return true; } })()''))
                 (Path p) False
                 (Some ''window.dynamicImportPolyfill.initialize({ importFunctionName: 'importShim' });'')])
      else Inr [])"

definition intersectionObserver_block :: block where
  "intersectionObserver_block env cfg =
     (if intersectionObserver (polyfills_of cfg) then
        and_then (resolve env ''intersection-observer/intersection-observer.js'') (\<lambda>p.
          Inr [polyfillConfig ''intersection-observer''
                 (Some ''!('IntersectionObserver' in window && 'IntersectionObserverEntry' in window && 'intersectionRatio' in window.IntersectionObserverEntry.prototype)'')
                 (Path p) True None])
      else Inr [])"

definition resizeObserver_block :: block where
  "resizeObserver_block env cfg =
     (if resizeObserver (polyfills_of cfg) then
        and_then (resolve env ''resize-observer-polyfill/dist/ResizeObserver.global.js'') (\<lambda>p.
          Inr [polyfillConfig ''resize-observer'' (Some ''!('ResizeObserver' in window)'')
                 (Path p) True None])
      else Inr [])"

definition scopedCustomElementRegistry_block :: block where
  "scopedCustomElementRegistry_block env cfg =
     (if scopedCustomElementRegistry (polyfills_of cfg) then
        and_then
          (resolve env
             ''@webcomponents/scoped-custom-element-registry/scoped-custom-element-registry.min.js'')
          (\<lambda>p.
             Inr [polyfillConfig ''scoped-custom-element-registry''
                    (Some ''!('createElement' in ShadowRoot.prototype)'') (Path p) False None])
      else Inr [])"

text \<open>Lines 166 to 180: two calls of addPolyfillConfig; the second
  \<^verbatim>\<open>require.resolve\<close> runs after the first entry is pushed.\<close>

definition webcomponents_block :: block where
  "webcomponents_block env cfg =
     (if webcomponents (polyfills_of cfg) \<and> \<not> shadyCssCustomStyle (polyfills_of cfg) then
        and_then (resolve env ''@webcomponents/webcomponentsjs/webcomponents-bundle.js'') (\<lambda>p1.
        and_then (resolve env ''@webcomponents/webcomponentsjs/custom-elements-es5-adapter.js'') (\<lambda>p2.
          Inr [polyfillConfig ''webcomponents''
                 (Some ''!('attachShadow' in Element.prototype) || !('getRootNode' in Element.prototype) || (window.ShadyDOM && window.ShadyDOM.force)'')
                 (Path p1) False None,
               polyfillConfig ''custom-elements-es5-adapter''
                 (Some ''!('noModule' in HTMLScriptElement.prototype) && 'getRootNode' in Element.prototype'')
                 (Path p2) False None]))
      else Inr [])"

text \<open>Lines 182 to 195.\<close>

definition webcomponents_shadyCss_block :: block where
  "webcomponents_shadyCss_block env cfg =
     (if webcomponents (polyfills_of cfg) \<and> shadyCssCustomStyle (polyfills_of cfg) then
        and_then (resolve env ''@webcomponents/webcomponentsjs/webcomponents-bundle.js'') (\<lambda>p1.
        and_then (resolve env ''@webcomponents/shadycss/custom-style-interface.min.js'') (\<lambda>p2.
        and_then (resolve env ''shady-css-scoped-element/shady-css-scoped-element.min.js'') (\<lambda>p3.
          Inr [polyfillConfig ''webcomponents-shady-css-custom-style''
                 (Some ''!('attachShadow' in Element.prototype) || !('getRootNode' in Element.prototype)'')
                 (Paths [p1, p2, p3]) False None])))
      else Inr [])"

text \<open>\<^verbatim>\<open>polyfillConfigs.push(...(polyfills.custom || []))\<close>\<close>

definition custom_block :: block where
  "custom_block env cfg =
     Inr (case custom (polyfills_of cfg) of None \<Rightarrow> [] | Some cs \<Rightarrow> cs)"

text \<open>The blocks run in the order of the source; the first exception ends the call.\<close>

fun run_blocks :: "env \<Rightarrow> PolyfillsLoaderConfig \<Rightarrow> block list \<Rightarrow> error + PolyfillConfig list" where
  "run_blocks env cfg [] = Inr []"
| "run_blocks env cfg (b # bs) =
     and_then (b env cfg) (\<lambda>xs.
     and_then (run_blocks env cfg bs) (\<lambda>ys. Inr (xs @ ys)))"

definition blocks :: "block list" where
  "blocks =
     [coreJs_block, URLPattern_block, esModuleShims_block, constructibleStylesheets_block,
      regeneratorRuntime_block, fetch_block, abortController_check, systemjs_block,
      dynamicImport_block, intersectionObserver_block, resizeObserver_block,
      scopedCustomElementRegistry_block, webcomponents_block, webcomponents_shadyCss_block,
      custom_block]"

text \<open>The array \<^verbatim>\<open>polyfillConfigs\<close> at line 198.\<close>

definition polyfillConfigs :: "env \<Rightarrow> PolyfillsLoaderConfig \<Rightarrow> error + PolyfillConfig list" where
  "polyfillConfigs env cfg = run_blocks env cfg blocks"

section \<open>The content materializer: lines 199 to 251\<close>

text \<open>Lines 208 to 212: the loop runs \<open>i\<close> from the last index down to 0; the first
  argument is \<open>i + 1\<close>.\<close>

definition sourceMappingURL :: string where
  "sourceMappingURL = ''//# sourceMappingURL''"

fun removeSourceMapUrl :: "nat \<Rightarrow> string list \<Rightarrow> string list" where
  "removeSourceMapUrl 0 contentLines = contentLines"
| "removeSourceMapUrl (Suc i) contentLines =
     removeSourceMapUrl i
       (if startsWith (contentLines ! i) sourceMappingURL
        then contentLines[i := []] else contentLines)"

text \<open>Lines 205 to 213, on the text that readFileSync returned.\<close>

definition stripSourceMapUrl :: "string \<Rightarrow> string" where
  "stripSourceMapUrl text =
     (let contentLines = split (CHR 0x0A) text
      in join newline (removeSourceMapUrl (length contentLines) contentLines))"

text \<open>The condition of line 201 is evaluated from left to right and stops at the
  first disjunct that holds.\<close>

definition readPolyfillFileContents :: "env \<Rightarrow> string \<Rightarrow> string io" where
  "readPolyfillFileContents env filePath =
     (let codePath = path_resolve env filePath;
          notFound = Inl (Error (''Could not find a file at '' @ filePath))
      in if codePath = [] then ([], notFound)
         else if \<not> existsSync env codePath then ([ExistsSync codePath], notFound)
         else if \<not> isFile env codePath then ([ExistsSync codePath, StatSync codePath], notFound)
         else (case readFileSync env filePath of
                 None \<Rightarrow>
                   ([ExistsSync codePath, StatSync codePath, ReadFileSync filePath],
                    Inl (ReadFailure filePath))
               | Some text \<Rightarrow>
                   ([ExistsSync codePath, StatSync codePath, ReadFileSync filePath],
                    Inr (stripSourceMapUrl text))))"

text \<open>Lines 222 to 227.\<close>

fun readContent :: "env \<Rightarrow> paths \<Rightarrow> string io" where
  "readContent env (Paths ps) =
     io_then (for_each (readPolyfillFileContents env) ps) (\<lambda>cs. ([], Inr (concat cs)))"
| "readContent env (Path p) = readPolyfillFileContents env p"

text \<open>Lines 228 to 232.\<close>

definition minified :: "env \<Rightarrow> bool \<Rightarrow> string \<Rightarrow> string io" where
  "minified env m text =
     (if m then
        (case Terser_minify env text of
           None \<Rightarrow> ([], Inl (MinifyFailure text))
         | Some code \<Rightarrow> ([], Inr code))
      else ([], Inr text))"

text \<open>\<^verbatim>\<open>path.posix.join\<close> and \<^verbatim>\<open>path.posix.normalize\<close> of Node, on two arguments.
  normalize works on the segments between slashes: an empty segment and \<^verbatim>\<open>.\<close> are
  dropped, \<^verbatim>\<open>..\<close> removes the segment before it, or is kept when there is none to
  remove and the path is relative. The second argument of \<open>normalizeString\<close> holds the
  segments kept so far, the last one first.\<close>

fun normalizeString :: "bool \<Rightarrow> string list \<Rightarrow> string list \<Rightarrow> string list" where
  "normalizeString allowAboveRoot res [] = rev res"
| "normalizeString allowAboveRoot res (s # ss) =
     (if s = [] \<or> s = ''.'' then normalizeString allowAboveRoot res ss
      else if s = ''..'' then
        (if res \<noteq> [] \<and> hd res \<noteq> ''..'' then normalizeString allowAboveRoot (tl res) ss
         else if allowAboveRoot then normalizeString allowAboveRoot (''..'' # res) ss
         else normalizeString allowAboveRoot res ss)
      else normalizeString allowAboveRoot (s # res) ss)"

definition posix_normalize :: "string \<Rightarrow> string" where
  "posix_normalize p =
     (if p = [] then ''.''
      else
        (let isAbsolute = (hd p = CHR ''/'');
             trailingSeparator = (last p = CHR ''/'');
             res = join ''/'' (normalizeString (\<not> isAbsolute) [] (split (CHR ''/'') p))
         in if res = [] then
              (if isAbsolute then ''/'' else if trailingSeparator then ''./'' else ''.'')
            else (if isAbsolute then ''/'' else []) @ res
                   @ (if trailingSeparator then ''/'' else [])))"

definition posix_join :: "string \<Rightarrow> string \<Rightarrow> string" where
  "posix_join a b =
     (let joined = (if a = [] then b else if b = [] then a else a @ ''/'' @ b)
      in if joined = [] then ''.'' else posix_normalize joined)"

text \<open>Lines 234 to 237.\<close>

definition filePath :: "env \<Rightarrow> PolyfillsLoaderConfig \<Rightarrow> string \<Rightarrow> string \<Rightarrow> string" where
  "filePath env cfg n text =
     posix_join
       (case polyfillsDir cfg of None \<Rightarrow> ''polyfills'' | Some d \<Rightarrow> if d = [] then ''polyfills'' else d)
       (n @ (if hash (polyfills_of cfg) \<noteq> Some False
             then ''.'' @ createContentHash env text else []))
     @ ''.js''"

text \<open>The body of the loop of lines 218 to 249, for one entry.\<close>

definition polyfillFile :: "env \<Rightarrow> PolyfillsLoaderConfig \<Rightarrow> PolyfillConfig \<Rightarrow> PolyfillFile io" where
  "polyfillFile env cfg c =
     (case (PolyfillConfig.name c, PolyfillConfig.path c) of
        (Some n, Some p) \<Rightarrow>
          if n = [] \<or> p = Path [] then
            ([], Inl (Error ''A polyfill should have a name and a path property.''))
          else
            io_then (readContent env p) (\<lambda>text.
            io_then (minified env (minify c) text) (\<lambda>code.
              ([], Inr \<lparr> PolyfillFile.name = n,
                        PolyfillFile.type =
                          (case fileType c of
                             None \<Rightarrow> fileTypes_SCRIPT env
                           | Some t \<Rightarrow> if t = [] then fileTypes_SCRIPT env else t),
                        PolyfillFile.path = filePath env cfg n code,
                        content = code,
                        PolyfillFile.test = PolyfillConfig.test c,
                        PolyfillFile.initializer = PolyfillConfig.initializer c \<rparr>)))
      | _ \<Rightarrow> ([], Inl (Error ''A polyfill should have a name and a path property.'')))"

definition polyfillFiles ::
  "env \<Rightarrow> PolyfillsLoaderConfig \<Rightarrow> PolyfillConfig list \<Rightarrow> PolyfillFile list io" where
  "polyfillFiles env cfg cs = for_each (polyfillFile env cfg) cs"

section \<open>createPolyfillsData\<close>

text \<open>The result: the calls made to \<^verbatim>\<open>fs\<close>, and the array of files the
  promise resolves to or the exception it rejects with.\<close>

definition createPolyfillsData :: "env \<Rightarrow> PolyfillsLoaderConfig \<Rightarrow> PolyfillFile list io" where
  "createPolyfillsData env cfg =
     (case polyfillConfigs env cfg of
        Inl e \<Rightarrow> ([], Inl e)
      | Inr cs \<Rightarrow> polyfillFiles env cfg cs)"

section \<open>Named parts of the configuration and of the block list\<close>

text \<open>The entries pushed at line 197.\<close>

definition custom_entries :: "PolyfillsLoaderConfig \<Rightarrow> PolyfillConfig list" where
  "custom_entries cfg = (case custom (polyfills_of cfg) of None \<Rightarrow> [] | Some cs \<Rightarrow> cs)"

text \<open>The blocks of lines 27 to 65, which run before the fetch block.\<close>

definition blocks_before_fetch :: "block list" where
  "blocks_before_fetch =
     [coreJs_block, URLPattern_block, esModuleShims_block, constructibleStylesheets_block,
      regeneratorRuntime_block]"

text \<open>The blocks of lines 27 to 164, which run before the two web components blocks.\<close>

definition blocks_before_webcomponents :: "block list" where
  "blocks_before_webcomponents =
     [coreJs_block, URLPattern_block, esModuleShims_block, constructibleStylesheets_block,
      regeneratorRuntime_block, fetch_block, abortController_check, systemjs_block,
      dynamicImport_block, intersectionObserver_block, resizeObserver_block,
      scopedCustomElementRegistry_block]"

text \<open>No polyfill flag is set.\<close>

definition no_flags :: "PolyfillsConfig \<Rightarrow> bool" where
  "no_flags p \<longleftrightarrow>
     \<not> coreJs p \<and> \<not> URLPattern p \<and> esModuleShims p = Off \<and> \<not> constructibleStylesheets p
     \<and> regeneratorRuntime p = Off \<and> \<not> fetch p \<and> \<not> abortController p \<and> \<not> systemjs p
     \<and> \<not> systemjsExtended p \<and> \<not> dynamicImport p \<and> \<not> intersectionObserver p
     \<and> \<not> resizeObserver p \<and> \<not> scopedCustomElementRegistry p \<and> \<not> webcomponents p
     \<and> \<not> shadyCssCustomStyle p"

text \<open>What the loop of lines 208 to 212 does to one line.\<close>

definition blank_directive :: "string \<Rightarrow> string" where
  "blank_directive l = (if startsWith l sourceMappingURL then [] else l)"

text \<open>The condition of line 219: \<^verbatim>\<open>!polyfillConfig.name || !polyfillConfig.path\<close>. An
  absent property and the empty string are falsy; an array is truthy, also the
  empty one.\<close>

definition lacks_name_or_path :: "PolyfillConfig \<Rightarrow> bool" where
  "lacks_name_or_path c \<longleftrightarrow>
     PolyfillConfig.name c = None \<or> PolyfillConfig.name c = Some []
     \<or> PolyfillConfig.path c = None \<or> PolyfillConfig.path c = Some (Path [])"

text \<open>A relative path that normalize leaves as it is: no segment between its slashes is
  empty, \<^verbatim>\<open>.\<close> or \<^verbatim>\<open>..\<close> (so it neither starts nor ends with a slash).\<close>

definition plain :: "string \<Rightarrow> bool" where
  "plain p = list_all (\<lambda>s. s \<noteq> [] \<and> s \<noteq> ''.'' \<and> s \<noteq> ''..'') (split (CHR ''/'') p)"

text \<open>require.resolve finds the source of every polyfill that is enabled in a block
  before the fetch block.\<close>

definition resolves_before_fetch :: "env \<Rightarrow> PolyfillsLoaderConfig \<Rightarrow> bool" where
  "resolves_before_fetch env cfg \<longleftrightarrow>
     (coreJs (polyfills_of cfg) \<longrightarrow> require_resolve env ''core-js-bundle/minified.js'' \<noteq> None)
     \<and> (URLPattern (polyfills_of cfg) \<longrightarrow> require_resolve env ''urlpattern-polyfill'' \<noteq> None)
     \<and> (esModuleShims (polyfills_of cfg) \<noteq> Off \<longrightarrow>
           require_resolve env ''es-module-shims'' \<noteq> None)
     \<and> (constructibleStylesheets (polyfills_of cfg) \<longrightarrow>
           require_resolve env ''construct-style-sheets-polyfill'' \<noteq> None)
     \<and> (regeneratorRuntime (polyfills_of cfg) \<noteq> Off \<longrightarrow>
           require_resolve env ''regenerator-runtime/runtime'' \<noteq> None)"

text \<open>What \<^verbatim>\<open>path.posix.join(d, b)\<close> puts before \<open>b\<close>, for a directory \<open>d\<close> that is not
  empty and a plain path \<open>b\<close>: the normalized directory and a slash (nothing for the
  directory \<^verbatim>\<open>.\<close>, a single slash for the root).\<close>

definition dir_prefix :: "string \<Rightarrow> string" where
  "dir_prefix d =
     (let isAbsolute = (hd d = CHR ''/'');
          res = normalizeString (\<not> isAbsolute) [] (split (CHR ''/'') d)
      in (if isAbsolute then ''/'' else []) @ (if res = [] then [] else join ''/'' res @ ''/''))"

section \<open>Example inputs\<close>

text \<open>An installation in which every package resolves and every file exists and holds
  the same short text; the hash is the first four characters of the content.\<close>

definition example_env :: env where
  "example_env =
     \<lparr> require_resolve = (\<lambda>r. Some (''/nm/'' @ r)),
       path_resolve = (\<lambda>p. p),
       existsSync = (\<lambda>p. True),
       isFile = (\<lambda>p. True),
       readFileSync = (\<lambda>p. Some ''f ();''),
       Terser_minify = (\<lambda>s. Some (filter (\<lambda>c. c \<noteq> CHR '' '') s)),
       createContentHash = (\<lambda>s. take 4 s),
       noModuleSupportTest = ''!('noModule' in HTMLScriptElement.prototype)'',
       fileTypes_SCRIPT = ''script'',
       fileTypes_SYSTEMJS = ''systemjs'' \<rparr>"

text \<open>The same installation without the package core-js-bundle.\<close>

definition env_without_coreJs :: env where
  "env_without_coreJs =
     example_env \<lparr> require_resolve :=
       (\<lambda>r. if r = ''core-js-bundle/minified.js'' then None else Some (''/nm/'' @ r)) \<rparr>"

text \<open>\<^verbatim>\<open>{ polyfills: p }\<close>\<close>

definition cfg_of :: "PolyfillsConfig \<Rightarrow> PolyfillsLoaderConfig" where
  "cfg_of p = \<lparr> modern = None, legacy = None, polyfills = Some p, polyfillsDir = None \<rparr>"

text \<open>\<^verbatim>\<open>{ polyfills: { coreJs: true, abortController: true } }\<close>\<close>

definition cfg_abortController :: PolyfillsLoaderConfig where
  "cfg_abortController = cfg_of (no_polyfills \<lparr> coreJs := True, abortController := True \<rparr>)"

text \<open>\<^verbatim>\<open>{ polyfills: { webcomponents: true, shadyCssCustomStyle: true } }\<close>\<close>

definition cfg_shadyCss :: PolyfillsLoaderConfig where
  "cfg_shadyCss = cfg_of (no_polyfills \<lparr> webcomponents := True, shadyCssCustomStyle := True \<rparr>)"

text \<open>\<^verbatim>\<open>{ polyfills: { webcomponents: true } }\<close>\<close>

definition cfg_webcomponents :: PolyfillsLoaderConfig where
  "cfg_webcomponents = cfg_of (no_polyfills \<lparr> webcomponents := True \<rparr>)"

text \<open>\<^verbatim>\<open>{ polyfills: { coreJs: true, esModuleShims: 'always' } }\<close>\<close>

definition cfg_esModuleShims :: PolyfillsLoaderConfig where
  "cfg_esModuleShims = cfg_of (no_polyfills \<lparr> coreJs := True, esModuleShims := Always \<rparr>)"

text \<open>\<^verbatim>\<open>{ legacy: [{ test: 'a', files: [{ type: 'systemjs', path: 'a.js' }] },
  { test: 'b', files: [] }] }\<close>: no polyfills are configured, and a legacy file needs
  the module loader.\<close>

definition cfg_legacy_systemjs :: PolyfillsLoaderConfig where
  "cfg_legacy_systemjs =
     \<lparr> modern = None,
       legacy = Some [\<lparr> LegacyEntrypoint.test = ''a'',
                        LegacyEntrypoint.files = [\<lparr> File.type = ''systemjs'', File.path = ''a.js'' \<rparr>] \<rparr>,
                      \<lparr> LegacyEntrypoint.test = ''b'', LegacyEntrypoint.files = [] \<rparr>],
       polyfills = None, polyfillsDir = None \<rparr>"

text \<open>\<^verbatim>\<open>{ modern: { files: [{ type: 'systemjs', path: 'app.js' }] } }\<close>: no polyfills
  are configured, and the modern build needs the module loader.\<close>

definition cfg_modern_systemjs :: PolyfillsLoaderConfig where
  "cfg_modern_systemjs =
     \<lparr> modern = Some \<lparr> ModernEntrypoint.files =
                          Some [\<lparr> File.type = ''systemjs'', File.path = ''app.js'' \<rparr>] \<rparr>,
       legacy = None, polyfills = None, polyfillsDir = None \<rparr>"

text \<open>Every file holds three lines, the second a source-map directive.\<close>

definition env_sourceMap :: env where
  "env_sourceMap =
     example_env \<lparr> readFileSync :=
       (\<lambda>p. Some ''a;\<newline>//# sourceMappingURL=a.js.map\<newline>b;'') \<rparr>"

text \<open>An installation whose minifier rejects every input.\<close>

definition env_minify_fails :: env where
  "env_minify_fails = example_env \<lparr> Terser_minify := (\<lambda>s. None) \<rparr>"

text \<open>\<^verbatim>\<open>{ polyfills: { coreJs: true, fetch: true } }\<close>\<close>

definition cfg_fetch :: PolyfillsLoaderConfig where
  "cfg_fetch = cfg_of (no_polyfills \<lparr> coreJs := True, fetch := True \<rparr>)"

text \<open>An installation in which no file exists.\<close>

definition env_no_files :: env where
  "env_no_files = example_env \<lparr> existsSync := (\<lambda>p. False) \<rparr>"

text \<open>\<^verbatim>\<open>{ polyfills: { hash: false, custom: [{ name: 'x', path: [] }] } }\<close>\<close>

definition cfg_custom_no_sources :: PolyfillsLoaderConfig where
  "cfg_custom_no_sources =
     cfg_of (no_polyfills \<lparr> hash := Some False,
       custom := Some [\<lparr> PolyfillConfig.name = Some ''x'', PolyfillConfig.path = Some (Paths []),
                        PolyfillConfig.test = None, fileType = None, minify = False,
                        PolyfillConfig.initializer = None \<rparr>] \<rparr>)"

text \<open>\<^verbatim>\<open>{ polyfills: { custom: [{ name: 'a', path: 'a.js' }, { path: 'b.js' }] } }\<close>\<close>

definition cfg_custom_no_name :: PolyfillsLoaderConfig where
  "cfg_custom_no_name =
     cfg_of (no_polyfills \<lparr>
       custom := Some [\<lparr> PolyfillConfig.name = Some ''a'', PolyfillConfig.path = Some (Path ''a.js''),
                        PolyfillConfig.test = None, fileType = None, minify = False,
                        PolyfillConfig.initializer = None \<rparr>,
                      \<lparr> PolyfillConfig.name = None, PolyfillConfig.path = Some (Path ''b.js''),
                        PolyfillConfig.test = None, fileType = None, minify = False,
                        PolyfillConfig.initializer = None \<rparr>] \<rparr>)"

text \<open>\<^verbatim>\<open>{ polyfills: { coreJs: true } }\<close>\<close>

definition cfg_coreJs :: PolyfillsLoaderConfig where
  "cfg_coreJs = cfg_of (no_polyfills \<lparr> coreJs := True \<rparr>)"

text \<open>\<^verbatim>\<open>{ polyfillsDir: './polyfills', polyfills: { coreJs: true, hash: false } }\<close>\<close>

definition cfg_dot_dir :: PolyfillsLoaderConfig where
  "cfg_dot_dir =
     \<lparr> modern = None, legacy = None,
       polyfills = Some (no_polyfills \<lparr> coreJs := True, hash := Some False \<rparr>),
       polyfillsDir = Some ''./polyfills'' \<rparr>"

text \<open>\<^verbatim>\<open>{ polyfills: { esModuleShims: true } }\<close>\<close>

definition cfg_esModuleShims_true :: PolyfillsLoaderConfig where
  "cfg_esModuleShims_true = cfg_of (no_polyfills \<lparr> esModuleShims := On \<rparr>)"

text \<open>The installation of \<open>example_env\<close> after a change to the files.\<close>

definition env_changed :: env where
  "env_changed = example_env \<lparr> readFileSync := (\<lambda>p. Some ''g ();'') \<rparr>"

text \<open>\<^verbatim>\<open>{ polyfillsDir: './polyfills', polyfills: { coreJs: true } }\<close>\<close>

definition cfg_dot_dir_hash :: PolyfillsLoaderConfig where
  "cfg_dot_dir_hash =
     \<lparr> modern = None, legacy = None,
       polyfills = Some (no_polyfills \<lparr> coreJs := True \<rparr>),
       polyfillsDir = Some ''./polyfills'' \<rparr>"

text \<open>The installation of \<open>example_env\<close> with another hash function and other files.\<close>

definition env_with :: "(string \<Rightarrow> string) \<Rightarrow> string \<Rightarrow> env" where
  "env_with H t = example_env \<lparr> readFileSync := (\<lambda>p. Some t), createContentHash := H \<rparr>"

section \<open>Lemmas on sequencing\<close>

lemma and_then_Inl [simp]: "and_then (Inl e) f = Inl e"
  by (simp add: and_then_def)

lemma and_then_Inr [simp]: "and_then (Inr x) f = f x"
  by (simp add: and_then_def)

lemma and_then_eq_Inr: "and_then m f = Inr y \<longleftrightarrow> (\<exists>x. m = Inr x \<and> f x = Inr y)"
  by (cases m) simp_all

lemma io_then_Inl [simp]: "io_then (calls, Inl e) f = (calls, Inl e)"
  by (simp add: io_then_def)

lemma io_then_Inr [simp]: "io_then (calls, Inr x) f = (calls @ fst (f x), snd (f x))"
  by (simp add: io_then_def split: prod.splits)

lemma snd_io_then:
  "snd (io_then m f) = (case snd m of Inl e \<Rightarrow> Inl e | Inr x \<Rightarrow> snd (f x))"
  by (cases m; cases "snd m") auto

lemma run_blocks_append:
  "run_blocks env cfg (as @ bs) =
     and_then (run_blocks env cfg as) (\<lambda>xs.
     and_then (run_blocks env cfg bs) (\<lambda>ys. Inr (xs @ ys)))"
proof (induction as)
  case Nil
  show ?case by (cases "run_blocks env cfg bs") simp_all
next
  case (Cons a as)
  show ?case
    by (cases "a env cfg"; cases "run_blocks env cfg as"; cases "run_blocks env cfg bs")
       (simp_all add: Cons.IH)
qed

lemma run_blocks_append_Inr:
  assumes "run_blocks env cfg (as @ bs) = Inr cs"
  shows "\<exists>xs ys. run_blocks env cfg as = Inr xs \<and> run_blocks env cfg bs = Inr ys \<and> cs = xs @ ys"
  using assms unfolding run_blocks_append
  by (cases "run_blocks env cfg as"; cases "run_blocks env cfg bs") auto

lemma run_blocks_Inl:
  "run_blocks env cfg bs = Inl e \<Longrightarrow> \<exists>b \<in> set bs. b env cfg = Inl e"
proof (induction bs)
  case Nil
  then show ?case by simp
next
  case (Cons b bs)
  then show ?case
    by (cases "b env cfg"; cases "run_blocks env cfg bs") auto
qed

lemma snd_for_each_Cons:
  "snd (for_each f (x # xs)) =
     (case snd (f x) of
        Inl e \<Rightarrow> Inl e
      | Inr y \<Rightarrow> (case snd (for_each f xs) of Inl e \<Rightarrow> Inl e | Inr ys \<Rightarrow> Inr (y # ys)))"
  by (simp add: snd_io_then split: sum.splits)

lemma snd_for_each_append:
  "snd (for_each f (xs @ ys)) =
     (case snd (for_each f xs) of
        Inl e \<Rightarrow> Inl e
      | Inr as \<Rightarrow> (case snd (for_each f ys) of Inl e \<Rightarrow> Inl e | Inr bs \<Rightarrow> Inr (as @ bs)))"
proof (induction xs)
  case Nil
  show ?case by (simp split: sum.splits)
next
  case (Cons x xs)
  show ?case
    unfolding append_Cons snd_for_each_Cons Cons.IH
    by (simp split: sum.splits)
qed

lemma snd_for_each_append_Inr:
  assumes "snd (for_each f (xs @ ys)) = Inr rs"
  shows "\<exists>as bs. snd (for_each f xs) = Inr as \<and> snd (for_each f ys) = Inr bs \<and> rs = as @ bs"
  using assms unfolding snd_for_each_append
  by (cases "snd (for_each f xs)"; cases "snd (for_each f ys)") auto

lemma for_each_length: "snd (for_each f xs) = Inr ys \<Longrightarrow> length ys = length xs"
proof (induction xs arbitrary: ys)
  case Nil
  then show ?case by simp
next
  case (Cons x xs)
  then show ?case
    unfolding snd_for_each_Cons by (auto split: sum.splits)
qed

lemma for_each_nth:
  "snd (for_each f xs) = Inr ys \<Longrightarrow> i < length xs \<Longrightarrow> snd (f (xs ! i)) = Inr (ys ! i)"
proof (induction xs arbitrary: ys i)
  case Nil
  then show ?case by simp
next
  case (Cons x xs)
  then show ?case
    unfolding snd_for_each_Cons by (cases i) (auto split: sum.splits)
qed

section \<open>Lemmas on the interpreter and the materializer\<close>

lemma polyfillConfig_sel [simp]:
  "PolyfillConfig.name (polyfillConfig n t p m i) = Some n"
  "PolyfillConfig.path (polyfillConfig n t p m i) = Some p"
  "PolyfillConfig.test (polyfillConfig n t p m i) = t"
  "fileType (polyfillConfig n t p m i) = None"
  "minify (polyfillConfig n t p m i) = m"
  "PolyfillConfig.initializer (polyfillConfig n t p m i) = i"
  by (simp_all add: polyfillConfig_def)

lemma resolve_Inr: "resolve env r = Inr p \<longleftrightarrow> require_resolve env r = Some p"
  by (simp add: resolve_def split: option.splits)

lemma blocks_webcomponents:
  "blocks = blocks_before_webcomponents
              @ [webcomponents_block, webcomponents_shadyCss_block] @ [custom_block]"
  by (simp add: blocks_def blocks_before_webcomponents_def)

lemma run_custom_block: "run_blocks env cfg [custom_block] = Inr ca \<Longrightarrow> ca = custom_entries cfg"
  by (auto simp: custom_block_def custom_entries_def)

lemma createPolyfillsData_Inr:
  "snd (createPolyfillsData env cfg) = Inr fs \<Longrightarrow>
     \<exists>cs. polyfillConfigs env cfg = Inr cs \<and> snd (polyfillFiles env cfg cs) = Inr fs"
  by (cases "polyfillConfigs env cfg") (simp_all add: createPolyfillsData_def)

text \<open>Where the block list is cut in three, the files of a successful call are the
  files of the three parts, in order.\<close>

lemma createPolyfillsData_split:
  assumes "blocks = before @ mid @ after"
    and "snd (createPolyfillsData env cfg) = Inr fs"
  shows "\<exists>cb cm ca fb fm fa.
           run_blocks env cfg before = Inr cb \<and> run_blocks env cfg mid = Inr cm
         \<and> run_blocks env cfg after = Inr ca
         \<and> snd (polyfillFiles env cfg cb) = Inr fb \<and> snd (polyfillFiles env cfg cm) = Inr fm
         \<and> snd (polyfillFiles env cfg ca) = Inr fa \<and> fs = fb @ fm @ fa"
proof -
  from assms(2) obtain cs where cs: "polyfillConfigs env cfg = Inr cs"
    and fs: "snd (polyfillFiles env cfg cs) = Inr fs"
    using createPolyfillsData_Inr by blast
  from cs have "run_blocks env cfg (before @ mid @ after) = Inr cs"
    by (simp add: polyfillConfigs_def assms(1))
  then obtain cb cr where cb: "run_blocks env cfg before = Inr cb"
    and cr: "run_blocks env cfg (mid @ after) = Inr cr" and 1: "cs = cb @ cr"
    using run_blocks_append_Inr by blast
  from cr obtain cm ca where cm: "run_blocks env cfg mid = Inr cm"
    and ca: "run_blocks env cfg after = Inr ca" and 2: "cr = cm @ ca"
    using run_blocks_append_Inr by blast
  from fs have "snd (for_each (polyfillFile env cfg) (cb @ cm @ ca)) = Inr fs"
    by (simp add: polyfillFiles_def 1 2)
  then obtain fb fr where fb: "snd (for_each (polyfillFile env cfg) cb) = Inr fb"
    and fr: "snd (for_each (polyfillFile env cfg) (cm @ ca)) = Inr fr" and 3: "fs = fb @ fr"
    using snd_for_each_append_Inr by blast
  from fr obtain fm fa where fm: "snd (for_each (polyfillFile env cfg) cm) = Inr fm"
    and fa: "snd (for_each (polyfillFile env cfg) ca) = Inr fa" and 4: "fr = fm @ fa"
    using snd_for_each_append_Inr by blast
  show ?thesis
    using cb cm ca fb fm fa 3 4 by (auto simp: polyfillFiles_def)
qed

text \<open>What a file says about the entry it was made from.\<close>

lemma polyfillFile_Inr:
  assumes "snd (polyfillFile env cfg c) = Inr f"
  shows "\<exists>n p src.
           PolyfillConfig.name c = Some n \<and> n \<noteq> [] \<and> PolyfillConfig.path c = Some p
         \<and> p \<noteq> Path []
         \<and> snd (readContent env p) = Inr src
         \<and> snd (minified env (minify c) src) = Inr (content f)
         \<and> PolyfillFile.name f = n
         \<and> PolyfillFile.path f = filePath env cfg n (content f)
         \<and> PolyfillFile.test f = PolyfillConfig.test c
         \<and> PolyfillFile.initializer f = PolyfillConfig.initializer c"
proof -
  from assms obtain n p where n: "PolyfillConfig.name c = Some n"
    and p: "PolyfillConfig.path c = Some p"
    by (cases "PolyfillConfig.name c"; cases "PolyfillConfig.path c") (auto simp: polyfillFile_def)
  from assms n p have v: "n \<noteq> []" "p \<noteq> Path []"
    by (auto simp: polyfillFile_def split: if_splits)
  from assms n p v obtain src where t: "snd (readContent env p) = Inr src"
    by (cases "snd (readContent env p)") (auto simp: polyfillFile_def snd_io_then)
  from assms n p v t obtain code where m: "snd (minified env (minify c) src) = Inr code"
    by (cases "snd (minified env (minify c) src)") (auto simp: polyfillFile_def snd_io_then)
  from assms n p v t m show ?thesis
    by (auto simp: polyfillFile_def snd_io_then)
qed

lemma polyfillFiles_single:
  "snd (polyfillFiles env cfg [c]) = Inr fm \<Longrightarrow>
     \<exists>f. fm = [f] \<and> snd (polyfillFile env cfg c) = Inr f"
  by (cases "snd (polyfillFile env cfg c)") (auto simp: polyfillFiles_def snd_io_then)

lemma readPolyfillFileContents_Inr:
  "snd (readPolyfillFileContents env p) = Inr s \<Longrightarrow>
     \<exists>t. readFileSync env p = Some t \<and> s = stripSourceMapUrl t"
  by (auto simp: readPolyfillFileContents_def Let_def split: if_splits option.splits)

lemma minified_False: "snd (minified env False src) = Inr code \<Longrightarrow> code = src"
  by (simp add: minified_def)

lemma readContent_three:
  assumes "snd (readContent env (Paths [p1, p2, p3])) = Inr src"
  shows "\<exists>t1 t2 t3. readFileSync env p1 = Some t1 \<and> readFileSync env p2 = Some t2
           \<and> readFileSync env p3 = Some t3
           \<and> src = stripSourceMapUrl t1 @ stripSourceMapUrl t2 @ stripSourceMapUrl t3"
proof -
  from assms obtain cs
    where cs: "snd (for_each (readPolyfillFileContents env) [p1, p2, p3]) = Inr cs"
    and src: "src = concat cs"
    by (cases "snd (for_each (readPolyfillFileContents env) [p1, p2, p3])")
       (auto simp: snd_io_then)
  from cs obtain s1 s2 s3 where 1: "snd (readPolyfillFileContents env p1) = Inr s1"
      and 2: "snd (readPolyfillFileContents env p2) = Inr s2"
      and 3: "snd (readPolyfillFileContents env p3) = Inr s3" and c: "cs = [s1, s2, s3]"
    unfolding snd_for_each_Cons by (auto split: sum.splits)
  from 1 2 3 src c show ?thesis
    by (auto dest!: readPolyfillFileContents_Inr)
qed

lemma polyfillFiles_two:
  assumes "snd (polyfillFiles env cfg [c1, c2]) = Inr fm"
  shows "\<exists>f1 f2. fm = [f1, f2] \<and> snd (polyfillFile env cfg c1) = Inr f1
           \<and> snd (polyfillFile env cfg c2) = Inr f2"
  using assms unfolding polyfillFiles_def snd_for_each_Cons
  by (auto split: sum.splits)

lemma readContent_Path:
  "snd (readContent env (Path p)) = Inr src \<Longrightarrow>
     \<exists>t. readFileSync env p = Some t \<and> src = stripSourceMapUrl t"
  by (simp add: readPolyfillFileContents_Inr)

lemma blocks_cut:
  "k < length blocks \<Longrightarrow> blocks = take k blocks @ [blocks ! k] @ drop (Suc k) blocks"
  by (simp add: id_take_nth_drop)

lemma createPolyfillsData_block:
  assumes "k < length blocks" and "snd (createPolyfillsData env cfg) = Inr fs"
  shows "\<exists>cb cm ca fb fm fa.
           run_blocks env cfg (take k blocks) = Inr cb \<and> (blocks ! k) env cfg = Inr cm
         \<and> run_blocks env cfg (drop (Suc k) blocks) = Inr ca
         \<and> snd (polyfillFiles env cfg cb) = Inr fb \<and> snd (polyfillFiles env cfg cm) = Inr fm
         \<and> snd (polyfillFiles env cfg ca) = Inr fa \<and> fs = fb @ fm @ fa"
proof -
  from createPolyfillsData_split [OF blocks_cut [OF assms(1)] assms(2)]
  obtain cb cm ca fb fm fa where *: "run_blocks env cfg (take k blocks) = Inr cb"
    "run_blocks env cfg [blocks ! k] = Inr cm"
    "run_blocks env cfg (drop (Suc k) blocks) = Inr ca"
    "snd (polyfillFiles env cfg cb) = Inr fb" "snd (polyfillFiles env cfg cm) = Inr fm"
    "snd (polyfillFiles env cfg ca) = Inr fa" "fs = fb @ fm @ fa"
    by blast
  from *(2) have "(blocks ! k) env cfg = Inr cm"
    by (cases "(blocks ! k) env cfg") simp_all
  with * show ?thesis by blast
qed

lemma split_not_Nil [simp]: "split c s \<noteq> []"
  by (induction s) (auto split: list.splits)

lemma split_no_separator: "l \<in> set (split c s) \<Longrightarrow> c \<notin> set l"
proof (induction s arbitrary: l)
  case Nil
  then show ?case by simp
next
  case (Cons x s)
  then show ?case
    by (cases "split c s") (auto split: if_splits)
qed

lemma split_without_separator: "c \<notin> set x \<Longrightarrow> split c x = [x]"
  by (induction x) auto

lemma split_append_separator: "c \<notin> set x \<Longrightarrow> split c (x @ c # r) = x # split c r"
proof (induction x)
  case Nil
  then show ?case by (cases "split c r") auto
next
  case (Cons a x)
  then show ?case by auto
qed

lemma split_join:
  "ls \<noteq> [] \<Longrightarrow> \<forall>l \<in> set ls. c \<notin> set l \<Longrightarrow> split c (join [c] ls) = ls"
proof (induction "[c]" ls rule: join.induct)
  case 1
  then show ?case by simp
next
  case (2 x)
  then show ?case by (simp add: split_without_separator)
next
  case (3 x y ys)
  then show ?case by (simp add: split_append_separator)
qed

lemma join_split: "join [c] (split c s) = s"
proof (induction s)
  case Nil
  then show ?case by simp
next
  case (Cons x s)
  then show ?case
    by (cases "split c s"; cases "tl (split c s)") (auto split: if_splits)
qed

lemma removeSourceMapUrl_map:
  "n \<le> length ls \<Longrightarrow>
     removeSourceMapUrl n ls = map blank_directive (take n ls) @ drop n ls"
proof (induction n arbitrary: ls)
  case 0
  then show ?case by simp
next
  case (Suc i)
  then have i: "i < length ls" by simp
  let ?ls = "if startsWith (ls ! i) sourceMappingURL then ls[i := []] else ls"
  have len: "i \<le> length ?ls" using i by simp
  have t: "take i ?ls = take i ls" by simp
  have d: "drop i ?ls = blank_directive (ls ! i) # drop (Suc i) ls"
    using i by (auto simp: blank_directive_def drop_update_cancel Cons_nth_drop_Suc
        upd_conv_take_nth_drop)
  have "removeSourceMapUrl (Suc i) ls = removeSourceMapUrl i ?ls" by simp
  also have "\<dots> = map blank_directive (take i ?ls) @ drop i ?ls"
    using Suc.IH [OF len] .
  also have "\<dots> = map blank_directive (take (Suc i) ls) @ drop (Suc i) ls"
    unfolding t d using i by (simp add: take_Suc_conv_app_nth)
  finally show ?case .
qed

lemma stripSourceMapUrl_join:
  "stripSourceMapUrl t = join newline (map blank_directive (split (CHR 0x0A) t))"
  by (simp add: stripSourceMapUrl_def removeSourceMapUrl_map)

lemma split_stripSourceMapUrl:
  "split (CHR 0x0A) (stripSourceMapUrl t) = map blank_directive (split (CHR 0x0A) t)"
proof -
  have "\<forall>l \<in> set (map blank_directive (split (CHR 0x0A) t)). CHR 0x0A \<notin> set l"
    by (auto simp: blank_directive_def dest: split_no_separator)
  then show ?thesis
    unfolding stripSourceMapUrl_join newline_def
    by (intro split_join) simp_all
qed

lemma for_each_readPolyfillFileContents:
  "snd (for_each (readPolyfillFileContents env) ps) = Inr cs \<Longrightarrow>
     \<exists>ts. map (readFileSync env) ps = map Some ts \<and> cs = map stripSourceMapUrl ts"
proof (induction ps arbitrary: cs)
  case Nil
  then show ?case by simp
next
  case (Cons p ps)
  from Cons.prems obtain s cs' where s: "snd (readPolyfillFileContents env p) = Inr s"
    and cs': "snd (for_each (readPolyfillFileContents env) ps) = Inr cs'" and cs: "cs = s # cs'"
    unfolding snd_for_each_Cons by (auto split: sum.splits)
  from readPolyfillFileContents_Inr [OF s] obtain t
    where t: "readFileSync env p = Some t" "s = stripSourceMapUrl t"
    by blast
  from Cons.IH [OF cs'] obtain ts
    where ts: "map (readFileSync env) ps = map Some ts" "cs' = map stripSourceMapUrl ts"
    by blast
  from t ts cs have "map (readFileSync env) (p # ps) = map Some (t # ts)
      \<and> cs = map stripSourceMapUrl (t # ts)"
    by simp
  then show ?case by blast
qed

lemma readContent_Paths:
  assumes "snd (readContent env (Paths ps)) = Inr src"
  shows "\<exists>ts. map (readFileSync env) ps = map Some ts \<and> src = concat (map stripSourceMapUrl ts)"
proof -
  from assms obtain cs where cs: "snd (for_each (readPolyfillFileContents env) ps) = Inr cs"
    and src: "src = concat cs"
    by (cases "snd (for_each (readPolyfillFileContents env) ps)") (auto simp: snd_io_then)
  from for_each_readPolyfillFileContents [OF cs] src show ?thesis
    by blast
qed

lemma snd_for_each_first_Inl:
  assumes "snd (for_each f before) = Inr rs" and "snd (f x) = Inl e"
  shows "snd (for_each f (before @ x # after)) = Inl e"
  using assms by (simp add: snd_for_each_append snd_for_each_Cons del: for_each.simps)

lemma snd_for_each_Inl:
  assumes "snd (f x) = Inl e"
  shows "\<exists>e'. snd (for_each f (before @ x # after)) = Inl e'"
  using assms
  by (cases "snd (for_each f before)")
     (simp_all add: snd_for_each_append snd_for_each_Cons del: for_each.simps)

lemma snd_for_each_Inr_nth:
  assumes "snd (for_each f (before @ x # after)) = Inr rs"
  shows "snd (f x) = Inr (rs ! length before)"
  using for_each_nth [OF assms, of "length before"] by simp

lemma createPolyfillsData_snd:
  "polyfillConfigs env cfg = Inr cs \<Longrightarrow>
     snd (createPolyfillsData env cfg) = snd (for_each (polyfillFile env cfg) cs)"
  by (simp add: createPolyfillsData_def polyfillFiles_def)

lemma polyfillFile_minify_Inl:
  assumes "PolyfillConfig.name c = Some n" and "n \<noteq> []"
    and "PolyfillConfig.path c = Some p" and "p \<noteq> Path []"
    and "snd (readContent env p) = Inr src" and "minify c"
    and "Terser_minify env src = None"
  shows "snd (polyfillFile env cfg c) = Inl (MinifyFailure src)"
  using assms by (simp add: polyfillFile_def snd_io_then minified_def)

lemma minified_True: "snd (minified env True src) = Inr code \<Longrightarrow> Terser_minify env src = Some code"
  by (simp add: minified_def split: option.splits)

lemma snd_readPolyfillFileContents_not_validation:
  "snd (readPolyfillFileContents env p) \<noteq> Inl (Error ''A polyfill should have a name and a path property.'')"
  by (auto simp: readPolyfillFileContents_def Let_def split: option.splits)

lemma snd_for_each_Inl_D:
  "snd (for_each f xs) = Inl e \<Longrightarrow> \<exists>x \<in> set xs. snd (f x) = Inl e"
proof (induction xs)
  case Nil
  then show ?case by simp
next
  case (Cons x xs)
  then show ?case
    unfolding snd_for_each_Cons by (auto split: sum.splits)
qed

lemma snd_readContent_not_validation:
  "snd (readContent env p) \<noteq> Inl (Error ''A polyfill should have a name and a path property.'')"
proof (cases p)
  case (Path x)
  then show ?thesis by (simp add: snd_readPolyfillFileContents_not_validation)
next
  case (Paths ps)
  show ?thesis
  proof
    assume "snd (readContent env p) = Inl (Error ''A polyfill should have a name and a path property.'')"
    then have "snd (for_each (readPolyfillFileContents env) ps) = Inl (Error ''A polyfill should have a name and a path property.'')"
      unfolding Paths by (auto simp: snd_io_then split: sum.splits)
    from snd_for_each_Inl_D [OF this] show False
      using snd_readPolyfillFileContents_not_validation by blast
  qed
qed

lemma snd_minified_not_validation:
  "snd (minified env m src) \<noteq> Inl (Error ''A polyfill should have a name and a path property.'')"
  by (auto simp: minified_def split: option.splits)

lemma polyfillFile_validation:
  "snd (polyfillFile env cfg c) = Inl (Error ''A polyfill should have a name and a path property.'')
     \<longleftrightarrow> lacks_name_or_path c"
proof
  assume "lacks_name_or_path c"
  then show "snd (polyfillFile env cfg c) = Inl (Error ''A polyfill should have a name and a path property.'')"
    by (auto simp: lacks_name_or_path_def polyfillFile_def split: option.splits)
next
  assume e: "snd (polyfillFile env cfg c) = Inl (Error ''A polyfill should have a name and a path property.'')"
  show "lacks_name_or_path c"
  proof (rule ccontr)
    assume "\<not> lacks_name_or_path c"
    then obtain n p where n: "PolyfillConfig.name c = Some n" "n \<noteq> []"
      and p: "PolyfillConfig.path c = Some p" "p \<noteq> Path []"
      by (auto simp: lacks_name_or_path_def)
    show False
    proof (cases "snd (readContent env p)")
      case (Inl x)
      with e n p snd_readContent_not_validation [of env p] show False
        by (simp add: polyfillFile_def snd_io_then)
    next
      case r: (Inr src)
      show False
      proof (cases "snd (minified env (minify c) src)")
        case (Inl x)
        with e n p r snd_minified_not_validation [of env "minify c" src] show False
          by (simp add: polyfillFile_def snd_io_then)
      next
        case (Inr code)
        with e n p r show False
          by (simp add: polyfillFile_def snd_io_then)
      qed
    qed
  qed
qed

lemma split_append:
  "split c (a @ c # b) = split c a @ split c b"
proof (induction a)
  case Nil
  show ?case by (cases "split c b") auto
next
  case (Cons x a)
  then show ?case
    by (cases "split c a") auto
qed

lemma plain_not_Nil: "plain p \<Longrightarrow> p \<noteq> []"
  by (auto simp: plain_def)

lemma plain_hd: "plain p \<Longrightarrow> hd p \<noteq> CHR ''/''"
proof (cases p)
  case Nil
  then show "plain p \<Longrightarrow> hd p \<noteq> CHR ''/''" by (simp add: plain_def)
next
  case (Cons x xs)
  then show "plain p \<Longrightarrow> hd p \<noteq> CHR ''/''"
    by (cases "split (CHR ''/'') xs") (auto simp: plain_def)
qed

lemma plain_last: "plain p \<Longrightarrow> last p \<noteq> CHR ''/''"
proof
  assume p: "plain p" and l: "last p = CHR ''/''"
  from p have "p \<noteq> []" by (rule plain_not_Nil)
  with l have "p = butlast p @ CHR ''/'' # []"
    by (metis append_butlast_last_id)
  then have "split (CHR ''/'') p = split (CHR ''/'') (butlast p) @ [[]]"
    by (metis split_append split.simps(1))
  with p show False by (simp add: plain_def)
qed

lemma normalizeString_plain:
  "list_all (\<lambda>s. s \<noteq> [] \<and> s \<noteq> ''.'' \<and> s \<noteq> ''..'') ss \<Longrightarrow>
     normalizeString a res ss = rev res @ ss"
  by (induction ss arbitrary: res) auto

lemma posix_join_plain:
  assumes "plain a" and "plain b"
  shows "posix_join a b = a @ ''/'' @ b"
proof -
  let ?j = "a @ CHR ''/'' # b"
  from assms have ne: "a \<noteq> []" "b \<noteq> []"
    by (auto dest: plain_not_Nil)
  have hd: "hd ?j \<noteq> CHR ''/''"
    using plain_hd [OF assms(1)] ne by simp
  have last: "last ?j \<noteq> CHR ''/''"
    using plain_last [OF assms(2)] ne by simp
  have segs: "list_all (\<lambda>s. s \<noteq> [] \<and> s \<noteq> ''.'' \<and> s \<noteq> ''..'') (split (CHR ''/'') ?j)"
    using assms by (simp add: split_append plain_def)
  have "join ''/'' (normalizeString True [] (split (CHR ''/'') ?j)) = ?j"
    using join_split [of "CHR ''/''" ?j] by (simp add: normalizeString_plain [OF segs])
  then have "posix_normalize ?j = ?j"
    using hd last by (simp add: posix_normalize_def)
  then show ?thesis
    using ne by (simp add: posix_join_def)
qed

lemma polyfillFile_path:
  "snd (polyfillFile env cfg c) = Inr f \<Longrightarrow>
     PolyfillFile.path f = filePath env cfg (PolyfillFile.name f) (content f)"
  by (drule polyfillFile_Inr) auto

lemma createPolyfillsData_file:
  assumes "snd (createPolyfillsData env cfg) = Inr fs" and "f \<in> set fs"
  shows "\<exists>c. snd (polyfillFile env cfg c) = Inr f"
proof -
  from createPolyfillsData_Inr [OF assms(1)] obtain cs
    where fs: "snd (for_each (polyfillFile env cfg) cs) = Inr fs"
    by (auto simp: polyfillFiles_def)
  from assms(2) obtain i where i: "i < length fs" "f = fs ! i"
    by (auto simp: in_set_conv_nth)
  with for_each_length [OF fs] for_each_nth [OF fs, of i] show ?thesis
    by auto
qed

lemma run_blocks_Cons_Inr:
  "b env cfg = Inr xs \<Longrightarrow> run_blocks env cfg bs = Inr ys \<Longrightarrow>
     run_blocks env cfg (b # bs) = Inr (xs @ ys)"
  by simp

lemma blocks_before_fetch_Inr:
  assumes "resolves_before_fetch env cfg"
  shows "\<exists>cs. run_blocks env cfg blocks_before_fetch = Inr cs"
proof -
  have 1: "\<exists>xs. coreJs_block env cfg = Inr xs"
    using assms by (auto simp: resolves_before_fetch_def coreJs_block_def resolve_def)
  have 2: "\<exists>xs. URLPattern_block env cfg = Inr xs"
    using assms by (auto simp: resolves_before_fetch_def URLPattern_block_def resolve_def)
  have 3: "\<exists>xs. esModuleShims_block env cfg = Inr xs"
    using assms by (auto simp: resolves_before_fetch_def esModuleShims_block_def resolve_def)
  have 4: "\<exists>xs. constructibleStylesheets_block env cfg = Inr xs"
    using assms by (auto simp: resolves_before_fetch_def constructibleStylesheets_block_def resolve_def)
  have 5: "\<exists>xs. regeneratorRuntime_block env cfg = Inr xs"
    using assms by (auto simp: resolves_before_fetch_def regeneratorRuntime_block_def resolve_def)
  from 1 2 3 4 5 show ?thesis
    unfolding blocks_before_fetch_def by auto
qed

lemma polyfillFile_Path:
  assumes "n \<noteq> []" and "p \<noteq> []" and "path_resolve env p \<noteq> []"
    and "existsSync env (path_resolve env p)" and "isFile env (path_resolve env p)"
    and "readFileSync env p = Some t"
  shows "snd (polyfillFile env cfg (polyfillConfig n tst (Path p) False i)) =
           Inr \<lparr> PolyfillFile.name = n, PolyfillFile.type = fileTypes_SCRIPT env,
                 PolyfillFile.path = filePath env cfg n (stripSourceMapUrl t),
                 content = stripSourceMapUrl t, PolyfillFile.test = tst,
                 PolyfillFile.initializer = i \<rparr>"
  using assms
  by (simp add: polyfillFile_def polyfillConfig_def readPolyfillFileContents_def minified_def
        snd_io_then Let_def)

lemma esModuleShims_file:
  assumes "esModuleShims (polyfills_of cfg) \<noteq> Off"
    and "snd (createPolyfillsData env cfg) = Inr fs"
  shows "\<exists>cb fb f ca fa.
           run_blocks env cfg (take 2 blocks) = Inr cb \<and> snd (polyfillFiles env cfg cb) = Inr fb
         \<and> run_blocks env cfg (drop 3 blocks) = Inr ca \<and> snd (polyfillFiles env cfg ca) = Inr fa
         \<and> fs = fb @ [f] @ fa
         \<and> PolyfillFile.name f = ''es-module-shims''
         \<and> PolyfillFile.test f =
             (if esModuleShims (polyfills_of cfg) = Always then None else Some ''1'')"
proof -
  have k: "2 < length blocks" and b: "blocks ! 2 = esModuleShims_block"
    by (simp_all add: blocks_def)
  from createPolyfillsData_block [OF k assms(2)]
  obtain cb cm ca fb fm fa where cb: "run_blocks env cfg (take 2 blocks) = Inr cb"
    and cm: "esModuleShims_block env cfg = Inr cm"
    and ca: "run_blocks env cfg (drop 3 blocks) = Inr ca"
    and fb: "snd (polyfillFiles env cfg cb) = Inr fb"
    and fm: "snd (polyfillFiles env cfg cm) = Inr fm"
    and fa: "snd (polyfillFiles env cfg ca) = Inr fa" and fs: "fs = fb @ fm @ fa"
    unfolding b by (auto simp: eval_nat_numeral)
  let ?t = "if esModuleShims (polyfills_of cfg) \<noteq> Always then Some ''1'' else None"
  from cm assms(1) obtain p where e: "cm = [polyfillConfig ''es-module-shims'' ?t (Path p) False None]"
    unfolding esModuleShims_block_def by (auto simp: and_then_eq_Inr)
  from fm e obtain f where f: "fm = [f]"
    and pf: "snd (polyfillFile env cfg (polyfillConfig ''es-module-shims'' ?t (Path p) False None)) = Inr f"
    using polyfillFiles_single by blast
  from polyfillFile_Inr [OF pf] have n: "PolyfillFile.name f = ''es-module-shims''"
    and t: "PolyfillFile.test f = ?t"
    by auto
  from t have "PolyfillFile.test f =
             (if esModuleShims (polyfills_of cfg) = Always then None else Some ''1'')"
    by simp
  with cb fb ca fa fs f n show ?thesis
    by (intro exI conjI) (assumption | simp)+
qed

lemma snd_for_each_Inl_first:
  "snd (for_each f xs) = Inl e \<Longrightarrow>
     \<exists>pre x post rs. xs = pre @ x # post \<and> snd (for_each f pre) = Inr rs \<and> snd (f x) = Inl e"
proof (induction xs)
  case Nil
  then show ?case by simp
next
  case (Cons x xs)
  show ?case
  proof (cases "snd (f x)")
    case (Inl e')
    with Cons.prems have "e' = e"
      unfolding snd_for_each_Cons by simp
    with Inl have "x # xs = [] @ x # xs \<and> snd (for_each f []) = Inr [] \<and> snd (f x) = Inl e"
      by simp
    then show ?thesis by blast
  next
    case (Inr y)
    with Cons.prems have "snd (for_each f xs) = Inl e"
      unfolding snd_for_each_Cons by (auto split: sum.splits)
    from Cons.IH [OF this] obtain pre z post rs where
      *: "xs = pre @ z # post" "snd (for_each f pre) = Inr rs" "snd (f z) = Inl e"
      by blast
    from * Inr have "x # xs = (x # pre) @ z # post \<and> snd (for_each f (x # pre)) = Inr (y # rs)
        \<and> snd (f z) = Inl e"
      unfolding snd_for_each_Cons by simp
    then show ?thesis by blast
  qed
qed

lemma snd_for_each_append_Inl:
  "snd (for_each f xs) = Inl e \<Longrightarrow> snd (for_each f (xs @ ys)) = Inl e"
  by (simp add: snd_for_each_append)

lemma polyfillFile_no_paths:
  assumes "PolyfillConfig.name c = Some n" and "n \<noteq> []"
    and "PolyfillConfig.path c = Some (Paths [])" and "\<not> minify c"
  shows "polyfillFile env cfg c =
           ([], Inr \<lparr> PolyfillFile.name = n,
                     PolyfillFile.type =
                       (case fileType c of
                          None \<Rightarrow> fileTypes_SCRIPT env
                        | Some t \<Rightarrow> if t = [] then fileTypes_SCRIPT env else t),
                     PolyfillFile.path = filePath env cfg n [],
                     content = [],
                     PolyfillFile.test = PolyfillConfig.test c,
                     PolyfillFile.initializer = PolyfillConfig.initializer c \<rparr>)"
  using assms by (simp add: polyfillFile_def minified_def)

lemma normalizeString_append_plain:
  "list_all (\<lambda>s. s \<noteq> [] \<and> s \<noteq> ''.'' \<and> s \<noteq> ''..'') ys \<Longrightarrow>
     normalizeString a res (xs @ ys) = normalizeString a res xs @ ys"
  by (induction xs arbitrary: res) (auto simp: normalizeString_plain)

lemma join_append:
  "ys \<noteq> [] \<Longrightarrow>
     join sep (xs @ ys) = (if xs = [] then join sep ys else join sep xs @ sep @ join sep ys)"
proof (induction sep xs rule: join.induct)
  case (1 sep)
  then show ?case by simp
next
  case (2 sep x)
  then show ?case by (cases ys) simp_all
next
  case (3 sep x y zs)
  then show ?case by simp
qed

lemma posix_join_prefix:
  assumes "d \<noteq> []" and "plain b"
  shows "posix_join d b = dir_prefix d @ b"
proof -
  let ?j = "d @ CHR ''/'' # b"
  let ?abs = "hd d = CHR ''/''"
  let ?res = "normalizeString (\<not> ?abs) [] (split (CHR ''/'') d)"
  from assms have ne: "b \<noteq> []"
    by (auto dest: plain_not_Nil)
  have hd: "hd ?j = hd d"
    using assms(1) by simp
  have last: "last ?j \<noteq> CHR ''/''"
    using plain_last [OF assms(2)] ne by simp
  have segs: "list_all (\<lambda>s. s \<noteq> [] \<and> s \<noteq> ''.'' \<and> s \<noteq> ''..'') (split (CHR ''/'') b)"
    using assms(2) by (simp add: plain_def)
  have n: "normalizeString (\<not> ?abs) [] (split (CHR ''/'') ?j) = ?res @ split (CHR ''/'') b"
    by (simp add: split_append normalizeString_append_plain [OF segs])
  have j: "join ''/'' (?res @ split (CHR ''/'') b) =
             (if ?res = [] then b else join ''/'' ?res @ ''/'' @ b)"
    using join_split [of "CHR ''/''" b] by (simp add: join_append)
  have nz: "join ''/'' (?res @ split (CHR ''/'') b) \<noteq> []"
    unfolding j using ne by simp
  have "posix_normalize ?j =
          (if ?abs then ''/'' else []) @ join ''/'' (?res @ split (CHR ''/'') b)"
    using last nz unfolding posix_normalize_def Let_def hd n by simp
  also have "\<dots> = dir_prefix d @ b"
    unfolding j by (simp add: dir_prefix_def Let_def)
  finally show ?thesis
    using assms(1) ne by (simp add: posix_join_def)
qed

lemma dir_prefix_plain:
  assumes "plain d"
  shows "dir_prefix d = d @ ''/''"
proof -
  have segs: "list_all (\<lambda>s. s \<noteq> [] \<and> s \<noteq> ''.'' \<and> s \<noteq> ''..'') (split (CHR ''/'') d)"
    using assms by (simp add: plain_def)
  show ?thesis
    using plain_hd [OF assms] join_split [of "CHR ''/''" d]
    by (simp add: dir_prefix_def normalizeString_plain [OF segs])
qed

lemma split_append_no_separator:
  "c \<notin> set x \<Longrightarrow> split c (a @ x) = butlast (split c a) @ [last (split c a) @ x]"
proof (induction a)
  case Nil
  then show ?case by (simp add: split_without_separator)
next
  case (Cons y a)
  then show ?case
    by (cases "split c a"; cases "split c (a @ x)") (auto split: if_splits)
qed

lemma plain_name_hash:
  assumes "plain n" and "CHR ''/'' \<notin> set h"
  shows "plain (n @ ''.'' @ h)"
proof -
  let ?ok = "\<lambda>s. s \<noteq> [] \<and> s \<noteq> ''.'' \<and> s \<noteq> ''..''"
  let ?ss = "split (CHR ''/'') n"
  have x: "CHR ''/'' \<notin> set (''.'' @ h)"
    using assms(2) by simp
  have all: "list_all ?ok ?ss"
    using assms(1) by (simp add: plain_def)
  have ne: "?ss \<noteq> []" by simp
  then have ss: "?ss = butlast ?ss @ [last ?ss]" by simp
  have "list_all ?ok (butlast ?ss @ [last ?ss])"
    using all ss by simp
  then have b: "list_all ?ok (butlast ?ss)" and l: "?ok (last ?ss)"
    by (simp_all only: list_all_append list.pred_inject) simp_all
  from l have "?ok (last ?ss @ ''.'' @ h)"
    by (cases "last ?ss"; cases "tl (last ?ss)") auto
  with b have "list_all ?ok (butlast ?ss @ [last ?ss @ ''.'' @ h])"
    by simp
  then show ?thesis
    unfolding plain_def using split_append_no_separator [OF x, of n] by simp
qed

text \<open>A hash function with values of bounded length collides on two texts of the
  form \<^verbatim>\<open>aa...a\<close>.\<close>

lemma bounded_hash_collides_replicate:
  fixes H :: "string \<Rightarrow> string"
  assumes "\<forall>s. length (H s) \<le> n"
  shows "\<exists>j k. j \<noteq> k \<and> H (replicate j (CHR ''a'')) = H (replicate k (CHR ''a''))"
proof (rule ccontr)
  let ?g = "\<lambda>k. H (replicate k (CHR ''a''))"
  assume "\<not> (\<exists>j k. j \<noteq> k \<and> ?g j = ?g k)"
  then have "inj ?g" by (auto simp: inj_on_def)
  have "range ?g \<subseteq> {xs. set xs \<subseteq> UNIV \<and> length xs \<le> n}"
    using assms by auto
  moreover have "finite {xs :: string. set xs \<subseteq> UNIV \<and> length xs \<le> n}"
    by (rule finite_lists_length_le) simp
  ultimately have "finite (range ?g)"
    by (rule finite_subset)
  from this \<open>inj ?g\<close> have "finite (UNIV :: nat set)"
    by (rule finite_imageD)
  then show False by simp
qed

lemma stripSourceMapUrl_replicate:
  "stripSourceMapUrl (replicate k (CHR ''a'')) = replicate k (CHR ''a'')"
proof -
  have "\<not> startsWith (replicate k (CHR ''a'')) sourceMappingURL"
    by (cases k) (simp_all add: startsWith_def sourceMappingURL_def)
  then show ?thesis
    by (simp add: stripSourceMapUrl_join split_without_separator blank_directive_def)
qed

text \<open>The definitions that evaluate a call on an example input.\<close>

lemmas block_defs =
  coreJs_block_def URLPattern_block_def esModuleShims_block_def
  constructibleStylesheets_block_def regeneratorRuntime_block_def fetch_block_def
  abortController_check_def systemjs_block_def dynamicImport_block_def
  intersectionObserver_block_def resizeObserver_block_def scopedCustomElementRegistry_block_def
  webcomponents_block_def webcomponents_shadyCss_block_def custom_block_def

lemmas eval_defs =
  createPolyfillsData_def polyfillConfigs_def blocks_def block_defs polyfills_of_def
  cfg_of_def no_polyfills_def example_env_def resolve_def polyfillConfig_def polyfillFiles_def
  polyfillFile_def readPolyfillFileContents_def stripSourceMapUrl_def minified_def filePath_def
  posix_join_def posix_normalize_def startsWith_def sourceMappingURL_def newline_def
  io_then_def Let_def hasSystemJs_def hasFileOfType_def alwaysLoad_def custom_entries_def
  blocks_before_fetch_def blocks_before_webcomponents_def

text \<open>The call for \<open>cfg_coreJs\<close>, whatever the hash function and the text of the files.\<close>

lemma coreJs_alone:
  "snd (createPolyfillsData (env_with H t) cfg_coreJs) =
     Inr [\<lparr> PolyfillFile.name = ''core-js'', PolyfillFile.type = ''script'',
            PolyfillFile.path =
              posix_join ''polyfills'' (''core-js'' @ ''.'' @ H (stripSourceMapUrl t)) @ ''.js'',
            content = stripSourceMapUrl t,
            PolyfillFile.test = Some ''!('noModule' in HTMLScriptElement.prototype)'',
            PolyfillFile.initializer = None \<rparr>]"
  by (simp add: env_with_def cfg_coreJs_def createPolyfillsData_def polyfillConfigs_def blocks_def
        block_defs polyfills_of_def cfg_of_def no_polyfills_def example_env_def resolve_def
        polyfillConfig_def polyfillFiles_def polyfillFile_def readPolyfillFileContents_def
        minified_def filePath_def io_then_def Let_def hasSystemJs_def hasFileOfType_def)

section \<open>The claims\<close>

text \<open>
  C1, as amended. For every configuration in which the abortController flag is set and
  the fetch flag is not, whatever the other flags and the custom entries, the call fails
  during config interpretation, without a single call to \<^verbatim>\<open>fs\<close> (existsSync, statSync,
  readFileSync). It fails with the configuration error "Cannot polyfill AbortController
  without fetch." whenever require.resolve finds the source of every polyfill that is
  enabled in one of the five blocks that run before the fetch block.
\<close>

theorem abortController_without_fetch:
  assumes "abortController (polyfills_of cfg)" and "\<not> fetch (polyfills_of cfg)"
  shows "(\<exists>e. createPolyfillsData env cfg = ([], Inl e))
       \<and> (resolves_before_fetch env cfg \<longrightarrow>
            createPolyfillsData env cfg =
              ([], Inl (Error ''Cannot polyfill AbortController without fetch.'')))"
proof -
  let ?rest = "[systemjs_block, dynamicImport_block, intersectionObserver_block,
      resizeObserver_block, scopedCustomElementRegistry_block, webcomponents_block,
      webcomponents_shadyCss_block, custom_block]"
  let ?err = "Error ''Cannot polyfill AbortController without fetch.''"
  have f: "fetch_block env cfg = Inr []"
    using assms by (simp add: fetch_block_def)
  have a: "abortController_check env cfg = Inl ?err"
    using assms by (simp add: abortController_check_def)
  have b: "blocks = blocks_before_fetch @ fetch_block # abortController_check # ?rest"
    by (simp add: blocks_def blocks_before_fetch_def)
  have "run_blocks env cfg (fetch_block # abortController_check # ?rest) = Inl ?err"
    by (simp add: f a)
  then have p: "polyfillConfigs env cfg =
          (case run_blocks env cfg blocks_before_fetch of
             Inl e \<Rightarrow> Inl e
           | Inr cs \<Rightarrow> Inl ?err)"
    unfolding polyfillConfigs_def b
    by (cases "run_blocks env cfg blocks_before_fetch")
       (simp_all only: run_blocks_append and_then_Inl and_then_Inr sum.case)
  have 1: "\<exists>e. createPolyfillsData env cfg = ([], Inl e)"
    using p by (cases "run_blocks env cfg blocks_before_fetch")
      (simp_all add: createPolyfillsData_def)
  have 2: "createPolyfillsData env cfg = ([], Inl ?err)" if "resolves_before_fetch env cfg"
    using blocks_before_fetch_Inr [OF that] p by (auto simp: createPolyfillsData_def)
  from 1 2 show ?thesis by blast
qed

text \<open>core-js is enabled and its package resolves.\<close>

theorem abortController_without_fetch_witness:
  "abortController (polyfills_of cfg_abortController)
   \<and> \<not> fetch (polyfills_of cfg_abortController)
   \<and> resolves_before_fetch example_env cfg_abortController
   \<and> createPolyfillsData example_env cfg_abortController =
       ([], Inl (Error ''Cannot polyfill AbortController without fetch.''))"
proof -
  have a: "abortController (polyfills_of cfg_abortController)"
    and b: "\<not> fetch (polyfills_of cfg_abortController)"
    and r: "resolves_before_fetch example_env cfg_abortController"
    by (simp_all add: cfg_abortController_def resolves_before_fetch_def eval_defs)
  from abortController_without_fetch [OF a b, of example_env] a b r
  show ?thesis by blast
qed

text \<open>C1 as stated fails where core-js is enabled and its package does not resolve:
  the call fails at line 30, before the check of line 85 is reached, and the exception
  is not the configuration error.\<close>

theorem abortController_without_fetch_counterexample:
  "abortController (polyfills_of cfg_abortController)
   \<and> \<not> fetch (polyfills_of cfg_abortController)
   \<and> createPolyfillsData env_without_coreJs cfg_abortController =
       ([], Inl (ModuleNotFound ''core-js-bundle/minified.js''))"
  by (simp add: cfg_abortController_def env_without_coreJs_def eval_defs)

text \<open>
  C2, as amended. When the esModuleShims flag is set, the es-module-shims entry carries
  the test \<^verbatim>\<open>'1'\<close>, a constant and not a feature detection, unless the flag is the literal
  \<^verbatim>\<open>'always'\<close>: then it carries no test. The entry is produced whenever require.resolve
  finds es-module-shims, its file carries the same test whenever the source can be read,
  and in every successful call that file stands between the files of the two blocks
  before the es-module-shims block and the files of the blocks after it.
\<close>

theorem esModuleShims_test:
  assumes "esModuleShims (polyfills_of cfg) \<noteq> Off"
    and "t = (if esModuleShims (polyfills_of cfg) = Always then None else Some ''1'')"
  shows "(\<forall>p. require_resolve env ''es-module-shims'' = Some p \<longrightarrow>
            esModuleShims_block env cfg =
              Inr [polyfillConfig ''es-module-shims'' t (Path p) False None])
       \<and> (\<forall>p src. require_resolve env ''es-module-shims'' = Some p \<and> p \<noteq> []
             \<and> path_resolve env p \<noteq> [] \<and> existsSync env (path_resolve env p)
             \<and> isFile env (path_resolve env p) \<and> readFileSync env p = Some src \<longrightarrow>
            snd (polyfillFile env cfg (polyfillConfig ''es-module-shims'' t (Path p) False None)) =
              Inr \<lparr> PolyfillFile.name = ''es-module-shims'',
                    PolyfillFile.type = fileTypes_SCRIPT env,
                    PolyfillFile.path = filePath env cfg ''es-module-shims'' (stripSourceMapUrl src),
                    content = stripSourceMapUrl src, PolyfillFile.test = t,
                    PolyfillFile.initializer = None \<rparr>)
       \<and> (\<forall>fs. snd (createPolyfillsData env cfg) = Inr fs \<longrightarrow>
            (\<exists>cb fb f ca fa.
               run_blocks env cfg (take 2 blocks) = Inr cb \<and> snd (polyfillFiles env cfg cb) = Inr fb
             \<and> run_blocks env cfg (drop 3 blocks) = Inr ca \<and> snd (polyfillFiles env cfg ca) = Inr fa
             \<and> fs = fb @ [f] @ fa
             \<and> PolyfillFile.name f = ''es-module-shims''
             \<and> PolyfillFile.test f = t))"
proof -
  have 1: "esModuleShims_block env cfg =
              Inr [polyfillConfig ''es-module-shims'' t (Path p) False None]"
    if "require_resolve env ''es-module-shims'' = Some p" for p
    using that assms by (simp add: esModuleShims_block_def resolve_def)
  have 2: "snd (polyfillFile env cfg (polyfillConfig ''es-module-shims'' t (Path p) False None)) =
              Inr \<lparr> PolyfillFile.name = ''es-module-shims'',
                    PolyfillFile.type = fileTypes_SCRIPT env,
                    PolyfillFile.path = filePath env cfg ''es-module-shims'' (stripSourceMapUrl src),
                    content = stripSourceMapUrl src, PolyfillFile.test = t,
                    PolyfillFile.initializer = None \<rparr>"
    if "p \<noteq> []" "path_resolve env p \<noteq> []" "existsSync env (path_resolve env p)"
       "isFile env (path_resolve env p)" "readFileSync env p = Some src" for p src
    using that by (intro polyfillFile_Path) simp_all
  from 1 2 esModuleShims_file [OF assms(1)] assms(2) show ?thesis
    by blast
qed

text \<open>The flag set to \<^verbatim>\<open>true\<close>: the entry and its file carry the test \<^verbatim>\<open>'1'\<close>. The flag
  set to \<^verbatim>\<open>'always'\<close>: the file carries no test.\<close>

theorem esModuleShims_test_witness:
  "esModuleShims_block example_env cfg_esModuleShims_true =
     Inr [polyfillConfig ''es-module-shims'' (Some ''1'') (Path ''/nm/es-module-shims'') False None]
   \<and> snd (createPolyfillsData example_env cfg_esModuleShims_true) =
       Inr [\<lparr> PolyfillFile.name = ''es-module-shims'', PolyfillFile.type = ''script'',
              PolyfillFile.path = ''polyfills/es-module-shims.f ().js'', content = ''f ();'',
              PolyfillFile.test = Some ''1'', PolyfillFile.initializer = None \<rparr>]
   \<and> (\<exists>f1 f2. snd (createPolyfillsData example_env cfg_esModuleShims) = Inr [f1, f2]
          \<and> PolyfillFile.name f2 = ''es-module-shims'' \<and> PolyfillFile.test f2 = None)"
proof -
  have a: "esModuleShims (polyfills_of cfg_esModuleShims_true) \<noteq> Off"
    and t: "Some ''1'' =
              (if esModuleShims (polyfills_of cfg_esModuleShims_true) = Always then None
               else Some ''1'')"
    and r: "require_resolve example_env ''es-module-shims'' = Some ''/nm/es-module-shims''"
    by (simp_all add: cfg_esModuleShims_true_def eval_defs)
  have h: "snd (createPolyfillsData example_env cfg_esModuleShims_true) =
       Inr [\<lparr> PolyfillFile.name = ''es-module-shims'', PolyfillFile.type = ''script'',
              PolyfillFile.path = ''polyfills/es-module-shims.f ().js'', content = ''f ();'',
              PolyfillFile.test = Some ''1'', PolyfillFile.initializer = None \<rparr>]"
    by (simp add: cfg_esModuleShims_true_def eval_defs)
  have a': "esModuleShims (polyfills_of cfg_esModuleShims) \<noteq> Off"
    by (simp add: cfg_esModuleShims_def eval_defs)
  have h': "snd (createPolyfillsData example_env cfg_esModuleShims) =
             Inr [\<lparr> PolyfillFile.name = ''core-js'',
                    PolyfillFile.type = ''script'',
                    PolyfillFile.path = ''polyfills/core-js.f ().js'',
                    content = ''f ();'',
                    PolyfillFile.test = Some ''!('noModule' in HTMLScriptElement.prototype)'',
                    PolyfillFile.initializer = None \<rparr>,
                  \<lparr> PolyfillFile.name = ''es-module-shims'',
                    PolyfillFile.type = ''script'',
                    PolyfillFile.path = ''polyfills/es-module-shims.f ().js'',
                    content = ''f ();'',
                    PolyfillFile.test = None,
                    PolyfillFile.initializer = None \<rparr>]"
    by (simp add: cfg_esModuleShims_def eval_defs)
  from esModuleShims_test [OF a t, of example_env] r
  have "esModuleShims_block example_env cfg_esModuleShims_true =
     Inr [polyfillConfig ''es-module-shims'' (Some ''1'') (Path ''/nm/es-module-shims'') False None]"
    by blast
  with h h' show ?thesis by simp
qed

text \<open>C2 as stated fails where the flag is \<^verbatim>\<open>true\<close>: the test of the file is the constant
  \<^verbatim>\<open>1\<close>, which holds in every browser and detects no feature.\<close>

theorem esModuleShims_test_counterexample:
  "esModuleShims (polyfills_of cfg_esModuleShims_true) = On
   \<and> snd (createPolyfillsData example_env cfg_esModuleShims_true) =
       Inr [\<lparr> PolyfillFile.name = ''es-module-shims'', PolyfillFile.type = ''script'',
              PolyfillFile.path = ''polyfills/es-module-shims.f ().js'', content = ''f ();'',
              PolyfillFile.test = Some ''1'', PolyfillFile.initializer = None \<rparr>]"
  by (simp add: cfg_esModuleShims_true_def eval_defs)

text \<open>
  C3. For every configuration with both webcomponents and shadyCssCustomStyle set, the
  files of a successful call are the files of the blocks before the web components
  blocks, then exactly one file, then the files of the custom entries. That one file is
  named webcomponents-shady-css-custom-style and its content is the concatenation, in
  this order, of what readPolyfillFileContents returns for the resolved paths of the
  web components bundle, the custom-style interface and the scoped shady-css element.
\<close>

theorem webcomponents_shadyCss_one_file:
  assumes "webcomponents (polyfills_of cfg)" and "shadyCssCustomStyle (polyfills_of cfg)"
    and "snd (createPolyfillsData env cfg) = Inr fs"
  shows "\<exists>cb fb f fa p1 p2 p3 t1 t2 t3.
           run_blocks env cfg blocks_before_webcomponents = Inr cb
         \<and> snd (polyfillFiles env cfg cb) = Inr fb
         \<and> snd (polyfillFiles env cfg (custom_entries cfg)) = Inr fa
         \<and> fs = fb @ [f] @ fa
         \<and> PolyfillFile.name f = ''webcomponents-shady-css-custom-style''
         \<and> require_resolve env ''@webcomponents/webcomponentsjs/webcomponents-bundle.js'' = Some p1
         \<and> require_resolve env ''@webcomponents/shadycss/custom-style-interface.min.js'' = Some p2
         \<and> require_resolve env ''shady-css-scoped-element/shady-css-scoped-element.min.js'' = Some p3
         \<and> readFileSync env p1 = Some t1 \<and> readFileSync env p2 = Some t2
         \<and> readFileSync env p3 = Some t3
         \<and> content f = stripSourceMapUrl t1 @ stripSourceMapUrl t2 @ stripSourceMapUrl t3"
proof -
  let ?c = "\<lambda>p1 p2 p3. polyfillConfig ''webcomponents-shady-css-custom-style''
      (Some ''!('attachShadow' in Element.prototype) || !('getRootNode' in Element.prototype)'')
      (Paths [p1, p2, p3]) False None"
  from createPolyfillsData_split [OF blocks_webcomponents assms(3)]
  obtain cb cm ca fb fm fa where cb: "run_blocks env cfg blocks_before_webcomponents = Inr cb"
    and cm: "run_blocks env cfg [webcomponents_block, webcomponents_shadyCss_block] = Inr cm"
    and ca: "run_blocks env cfg [custom_block] = Inr ca"
    and fb: "snd (polyfillFiles env cfg cb) = Inr fb"
    and fm: "snd (polyfillFiles env cfg cm) = Inr fm"
    and fa: "snd (polyfillFiles env cfg ca) = Inr fa" and fs: "fs = fb @ fm @ fa"
    by blast
  have w: "webcomponents_block env cfg = Inr []"
    using assms by (simp add: webcomponents_block_def)
  from cm have "webcomponents_shadyCss_block env cfg = Inr cm"
    by (cases "webcomponents_shadyCss_block env cfg") (simp_all add: w)
  then obtain p1 p2 p3 where
        p1: "require_resolve env ''@webcomponents/webcomponentsjs/webcomponents-bundle.js'' = Some p1"
    and p2: "require_resolve env ''@webcomponents/shadycss/custom-style-interface.min.js'' = Some p2"
    and p3: "require_resolve env ''shady-css-scoped-element/shady-css-scoped-element.min.js'' = Some p3"
    and e: "cm = [?c p1 p2 p3]"
    using assms(1,2) unfolding webcomponents_shadyCss_block_def
    by (auto simp: and_then_eq_Inr resolve_Inr)
  from fm e obtain f where f: "fm = [f]"
    and pf: "snd (polyfillFile env cfg (?c p1 p2 p3)) = Inr f"
    using polyfillFiles_single by blast
  from polyfillFile_Inr [OF pf] obtain src where
        n: "PolyfillFile.name f = ''webcomponents-shady-css-custom-style''"
    and r: "snd (readContent env (Paths [p1, p2, p3])) = Inr src"
    and m: "snd (minified env False src) = Inr (content f)"
    by auto
  from readContent_three [OF r] minified_False [OF m] obtain t1 t2 t3 where
    t: "readFileSync env p1 = Some t1" "readFileSync env p2 = Some t2"
       "readFileSync env p3 = Some t3"
       "content f = stripSourceMapUrl t1 @ stripSourceMapUrl t2 @ stripSourceMapUrl t3"
    by auto
  from run_custom_block [OF ca] fa
  have "snd (polyfillFiles env cfg (custom_entries cfg)) = Inr fa"
    by simp
  with cb fb fs f n p1 p2 p3 t show ?thesis
    by (intro exI conjI) (assumption | simp)+
qed

theorem webcomponents_shadyCss_one_file_witness:
  "webcomponents (polyfills_of cfg_shadyCss) \<and> shadyCssCustomStyle (polyfills_of cfg_shadyCss)
   \<and> (\<exists>f. snd (createPolyfillsData example_env cfg_shadyCss) = Inr [f]
          \<and> PolyfillFile.name f = ''webcomponents-shady-css-custom-style''
          \<and> content f = ''f ();f ();f ();'')"
proof -
  have a: "webcomponents (polyfills_of cfg_shadyCss)"
    and b: "shadyCssCustomStyle (polyfills_of cfg_shadyCss)"
    by (simp_all add: cfg_shadyCss_def eval_defs)
  have h: "snd (createPolyfillsData example_env cfg_shadyCss) =
             Inr [\<lparr> PolyfillFile.name = ''webcomponents-shady-css-custom-style'',
                    PolyfillFile.type = ''script'',
                    PolyfillFile.path = ''polyfills/webcomponents-shady-css-custom-style.f ().js'',
                    content = ''f ();f ();f ();'',
                    PolyfillFile.test = Some ''!('attachShadow' in Element.prototype) || !('getRootNode' in Element.prototype)'',
                    PolyfillFile.initializer = None \<rparr>]"
    by (simp add: cfg_shadyCss_def eval_defs)
  show ?thesis
    using webcomponents_shadyCss_one_file [OF a b h] a b h by simp
qed

text \<open>
  C4. For every configuration with webcomponents set and shadyCssCustomStyle not set, the
  files of a successful call are the files of the blocks before the web components
  blocks, then exactly two files, then the files of the custom entries. The first of the
  two is named webcomponents and holds the web components bundle, the second is named
  custom-elements-es5-adapter and holds the ES5 adapter.
\<close>

theorem webcomponents_two_files:
  assumes "webcomponents (polyfills_of cfg)" and "\<not> shadyCssCustomStyle (polyfills_of cfg)"
    and "snd (createPolyfillsData env cfg) = Inr fs"
  shows "\<exists>cb fb f1 f2 fa p1 p2 t1 t2.
           run_blocks env cfg blocks_before_webcomponents = Inr cb
         \<and> snd (polyfillFiles env cfg cb) = Inr fb
         \<and> snd (polyfillFiles env cfg (custom_entries cfg)) = Inr fa
         \<and> fs = fb @ [f1, f2] @ fa
         \<and> PolyfillFile.name f1 = ''webcomponents''
         \<and> PolyfillFile.name f2 = ''custom-elements-es5-adapter''
         \<and> require_resolve env ''@webcomponents/webcomponentsjs/webcomponents-bundle.js'' = Some p1
         \<and> require_resolve env ''@webcomponents/webcomponentsjs/custom-elements-es5-adapter.js'' = Some p2
         \<and> readFileSync env p1 = Some t1 \<and> readFileSync env p2 = Some t2
         \<and> content f1 = stripSourceMapUrl t1 \<and> content f2 = stripSourceMapUrl t2"
proof -
  let ?c1 = "\<lambda>p. polyfillConfig ''webcomponents''
      (Some ''!('attachShadow' in Element.prototype) || !('getRootNode' in Element.prototype) || (window.ShadyDOM && window.ShadyDOM.force)'')
      (Path p) False None"
  let ?c2 = "\<lambda>p. polyfillConfig ''custom-elements-es5-adapter''
      (Some ''!('noModule' in HTMLScriptElement.prototype) && 'getRootNode' in Element.prototype'')
      (Path p) False None"
  from createPolyfillsData_split [OF blocks_webcomponents assms(3)]
  obtain cb cm ca fb fm fa where cb: "run_blocks env cfg blocks_before_webcomponents = Inr cb"
    and cm: "run_blocks env cfg [webcomponents_block, webcomponents_shadyCss_block] = Inr cm"
    and ca: "run_blocks env cfg [custom_block] = Inr ca"
    and fb: "snd (polyfillFiles env cfg cb) = Inr fb"
    and fm: "snd (polyfillFiles env cfg cm) = Inr fm"
    and fa: "snd (polyfillFiles env cfg ca) = Inr fa" and fs: "fs = fb @ fm @ fa"
    by blast
  have w: "webcomponents_shadyCss_block env cfg = Inr []"
    using assms by (simp add: webcomponents_shadyCss_block_def)
  from cm have "webcomponents_block env cfg = Inr cm"
    by (cases "webcomponents_block env cfg") (simp_all add: w)
  then obtain p1 p2 where
        p1: "require_resolve env ''@webcomponents/webcomponentsjs/webcomponents-bundle.js'' = Some p1"
    and p2: "require_resolve env ''@webcomponents/webcomponentsjs/custom-elements-es5-adapter.js'' = Some p2"
    and e: "cm = [?c1 p1, ?c2 p2]"
    using assms(1,2) unfolding webcomponents_block_def
    by (auto simp: and_then_eq_Inr resolve_Inr)
  from fm e obtain f1 f2 where f: "fm = [f1, f2]"
    and pf1: "snd (polyfillFile env cfg (?c1 p1)) = Inr f1"
    and pf2: "snd (polyfillFile env cfg (?c2 p2)) = Inr f2"
    using polyfillFiles_two by blast
  from polyfillFile_Inr [OF pf1] obtain src1 where
        n1: "PolyfillFile.name f1 = ''webcomponents''"
    and r1: "snd (readContent env (Path p1)) = Inr src1"
    and m1: "snd (minified env False src1) = Inr (content f1)"
    by auto
  from polyfillFile_Inr [OF pf2] obtain src2 where
        n2: "PolyfillFile.name f2 = ''custom-elements-es5-adapter''"
    and r2: "snd (readContent env (Path p2)) = Inr src2"
    and m2: "snd (minified env False src2) = Inr (content f2)"
    by auto
  from readContent_Path [OF r1] minified_False [OF m1] obtain t1 where
    t1: "readFileSync env p1 = Some t1" "content f1 = stripSourceMapUrl t1"
    by auto
  from readContent_Path [OF r2] minified_False [OF m2] obtain t2 where
    t2: "readFileSync env p2 = Some t2" "content f2 = stripSourceMapUrl t2"
    by auto
  from run_custom_block [OF ca] fa
  have "snd (polyfillFiles env cfg (custom_entries cfg)) = Inr fa"
    by simp
  with cb fb fs f n1 n2 p1 p2 t1 t2 show ?thesis
    by (intro exI conjI) (assumption | simp)+
qed

theorem webcomponents_two_files_witness:
  "webcomponents (polyfills_of cfg_webcomponents)
   \<and> \<not> shadyCssCustomStyle (polyfills_of cfg_webcomponents)
   \<and> (\<exists>f1 f2. snd (createPolyfillsData example_env cfg_webcomponents) = Inr [f1, f2]
          \<and> PolyfillFile.name f1 = ''webcomponents''
          \<and> PolyfillFile.name f2 = ''custom-elements-es5-adapter'')"
proof -
  have a: "webcomponents (polyfills_of cfg_webcomponents)"
    and b: "\<not> shadyCssCustomStyle (polyfills_of cfg_webcomponents)"
    by (simp_all add: cfg_webcomponents_def eval_defs)
  have h: "snd (createPolyfillsData example_env cfg_webcomponents) =
             Inr [\<lparr> PolyfillFile.name = ''webcomponents'',
                    PolyfillFile.type = ''script'',
                    PolyfillFile.path = ''polyfills/webcomponents.f ().js'',
                    content = ''f ();'',
                    PolyfillFile.test = Some ''!('attachShadow' in Element.prototype) || !('getRootNode' in Element.prototype) || (window.ShadyDOM && window.ShadyDOM.force)'',
                    PolyfillFile.initializer = None \<rparr>,
                  \<lparr> PolyfillFile.name = ''custom-elements-es5-adapter'',
                    PolyfillFile.type = ''script'',
                    PolyfillFile.path = ''polyfills/custom-elements-es5-adapter.f ().js'',
                    content = ''f ();'',
                    PolyfillFile.test = Some ''!('noModule' in HTMLScriptElement.prototype) && 'getRootNode' in Element.prototype'',
                    PolyfillFile.initializer = None \<rparr>]"
    by (simp add: cfg_webcomponents_def eval_defs)
  show ?thesis
    using webcomponents_two_files [OF a b h] a b h by simp
qed

text \<open>
  C7. Whenever the systemjs entry is included (the condition of lines 92 to 96), the files
  of a successful call are the files of the seven blocks before the systemjs block, then
  the file named systemjs, then the files of the blocks after it. That file carries no
  test if a file of \<^verbatim>\<open>cfg.modern.files\<close> has the type \<^verbatim>\<open>fileTypes.SYSTEMJS\<close> or
  \<^verbatim>\<open>cfg.legacy\<close> is absent; otherwise its test is the tests of all legacy entries,
  joined with \<^verbatim>\<open>' || '\<close>.
\<close>

theorem systemjs_test:
  assumes "systemjs (polyfills_of cfg) \<or> systemjsExtended (polyfills_of cfg)
           \<or> (\<not> hasSystemJs cfg \<and> hasFileOfType cfg (fileTypes_SYSTEMJS env))"
    and "snd (createPolyfillsData env cfg) = Inr fs"
  shows "\<exists>cb fb f ca fa.
           run_blocks env cfg (take 7 blocks) = Inr cb \<and> snd (polyfillFiles env cfg cb) = Inr fb
         \<and> run_blocks env cfg (drop 8 blocks) = Inr ca \<and> snd (polyfillFiles env cfg ca) = Inr fa
         \<and> fs = fb @ [f] @ fa
         \<and> PolyfillFile.name f = ''systemjs''
         \<and> PolyfillFile.test f =
             (if (\<exists>m fl x. modern cfg = Some m \<and> ModernEntrypoint.files m = Some fl
                     \<and> x \<in> set fl \<and> File.type x = fileTypes_SYSTEMJS env)
                 \<or> legacy cfg = None
              then None
              else Some (join '' || '' (map LegacyEntrypoint.test (the (legacy cfg)))))"
proof -
  have k: "7 < length blocks" and b: "blocks ! 7 = systemjs_block"
    by (simp_all add: blocks_def)
  from createPolyfillsData_block [OF k assms(2)]
  obtain cb cm ca fb fm fa where cb: "run_blocks env cfg (take 7 blocks) = Inr cb"
    and cm: "systemjs_block env cfg = Inr cm"
    and ca: "run_blocks env cfg (drop 8 blocks) = Inr ca"
    and fb: "snd (polyfillFiles env cfg cb) = Inr fb"
    and fm: "snd (polyfillFiles env cfg cm) = Inr fm"
    and fa: "snd (polyfillFiles env cfg ca) = Inr fa" and fs: "fs = fb @ fm @ fa"
    unfolding b by (auto simp: eval_nat_numeral)
  let ?t = "if alwaysLoad env cfg \<or> legacy cfg = None then None
            else Some (join '' || '' (map LegacyEntrypoint.test (the (legacy cfg))))"
  have al: "alwaysLoad env cfg \<longleftrightarrow>
              (\<exists>m fl x. modern cfg = Some m \<and> ModernEntrypoint.files m = Some fl
                     \<and> x \<in> set fl \<and> File.type x = fileTypes_SYSTEMJS env)"
    by (auto simp: alwaysLoad_def list_ex_iff split: option.splits)
  from cm assms(1) obtain p where e: "cm = [polyfillConfig ''systemjs'' ?t (Path p) False None]"
    unfolding systemjs_block_def Let_def by (auto simp: and_then_eq_Inr split: if_splits)
  from fm e obtain f where f: "fm = [f]"
    and pf: "snd (polyfillFile env cfg (polyfillConfig ''systemjs'' ?t (Path p) False None)) = Inr f"
    using polyfillFiles_single by blast
  from polyfillFile_Inr [OF pf] have n: "PolyfillFile.name f = ''systemjs''"
    and t: "PolyfillFile.test f = ?t"
    by auto
  from t have "PolyfillFile.test f =
             (if (\<exists>m fl x. modern cfg = Some m \<and> ModernEntrypoint.files m = Some fl
                     \<and> x \<in> set fl \<and> File.type x = fileTypes_SYSTEMJS env)
                 \<or> legacy cfg = None
              then None
              else Some (join '' || '' (map LegacyEntrypoint.test (the (legacy cfg)))))"
    unfolding al by simp
  with cb fb ca fa fs f n show ?thesis
    by (intro exI conjI) (assumption | simp)+
qed

text \<open>Two legacy entries, no modern file: the test is \<^verbatim>\<open>a || b\<close>.\<close>

theorem systemjs_test_witness:
  "(systemjs (polyfills_of cfg_legacy_systemjs) \<or> systemjsExtended (polyfills_of cfg_legacy_systemjs)
      \<or> (\<not> hasSystemJs cfg_legacy_systemjs
          \<and> hasFileOfType cfg_legacy_systemjs (fileTypes_SYSTEMJS example_env)))
   \<and> (\<exists>f. snd (createPolyfillsData example_env cfg_legacy_systemjs) = Inr [f]
          \<and> PolyfillFile.name f = ''systemjs'' \<and> PolyfillFile.test f = Some ''a || b'')"
proof -
  have a: "systemjs (polyfills_of cfg_legacy_systemjs) \<or> systemjsExtended (polyfills_of cfg_legacy_systemjs)
      \<or> (\<not> hasSystemJs cfg_legacy_systemjs
          \<and> hasFileOfType cfg_legacy_systemjs (fileTypes_SYSTEMJS example_env))"
    by (simp add: cfg_legacy_systemjs_def eval_defs)
  have h: "snd (createPolyfillsData example_env cfg_legacy_systemjs) =
             Inr [\<lparr> PolyfillFile.name = ''systemjs'',
                    PolyfillFile.type = ''script'',
                    PolyfillFile.path = ''polyfills/systemjs.f ().js'',
                    content = ''f ();'',
                    PolyfillFile.test = Some ''a || b'',
                    PolyfillFile.initializer = None \<rparr>]"
    by (simp add: cfg_legacy_systemjs_def eval_defs)
  show ?thesis
    using systemjs_test [OF a h] a h by simp
qed

text \<open>
  C6, as amended. For every configuration in which no polyfill flag is set, no custom
  entry is supplied and no declared output file (modern or legacy) has the type
  \<^verbatim>\<open>fileTypes.SYSTEMJS\<close>, the call returns the empty array of files, and makes no call
  to \<^verbatim>\<open>fs\<close>.
\<close>

theorem no_flags_no_files:
  assumes "no_flags (polyfills_of cfg)" and "custom_entries cfg = []"
    and "\<not> hasFileOfType cfg (fileTypes_SYSTEMJS env)"
  shows "createPolyfillsData env cfg = ([], Inr [])"
proof -
  have "polyfillConfigs env cfg = Inr []"
    using assms
    by (simp add: polyfillConfigs_def blocks_def block_defs no_flags_def custom_entries_def)
  then show ?thesis
    by (simp add: createPolyfillsData_def polyfillFiles_def)
qed

theorem no_flags_no_files_witness:
  "no_flags (polyfills_of (cfg_of no_polyfills)) \<and> custom_entries (cfg_of no_polyfills) = []
   \<and> \<not> hasFileOfType (cfg_of no_polyfills) (fileTypes_SYSTEMJS example_env)
   \<and> createPolyfillsData example_env (cfg_of no_polyfills) = ([], Inr [])"
proof -
  have a: "no_flags (polyfills_of (cfg_of no_polyfills))"
    and b: "custom_entries (cfg_of no_polyfills) = []"
    and c: "\<not> hasFileOfType (cfg_of no_polyfills) (fileTypes_SYSTEMJS example_env)"
    by (simp_all add: no_flags_def eval_defs)
  show ?thesis
    using no_flags_no_files [OF a b c] a b c by simp
qed

text \<open>C6 as stated fails where a declared output file needs the module loader: the
  systemjs polyfill is included although no flag is set (lines 90 to 96).\<close>

theorem no_flags_no_files_counterexample:
  "no_flags (polyfills_of cfg_modern_systemjs) \<and> custom_entries cfg_modern_systemjs = []
   \<and> snd (createPolyfillsData example_env cfg_modern_systemjs) =
       Inr [\<lparr> PolyfillFile.name = ''systemjs'',
              PolyfillFile.type = ''script'',
              PolyfillFile.path = ''polyfills/systemjs.f ().js'',
              content = ''f ();'',
              PolyfillFile.test = None,
              PolyfillFile.initializer = None \<rparr>]"
  by (simp add: cfg_modern_systemjs_def no_flags_def eval_defs)

text \<open>
  C10. What readPolyfillFileContents returns for a file is the text of the file in which
  every line that begins with \<^verbatim>\<open>//# sourceMappingURL\<close>, wherever it stands, is replaced
  by an empty line: split at the newlines, the result has the lines of the file, each
  either unchanged or emptied, so the number of lines is the same. The content of an
  entry with an array of paths is the concatenation of these results, with no separator.
\<close>

theorem sourceMappingURL_lines_blanked:
  "split (CHR 0x0A) (stripSourceMapUrl t) =
     map (\<lambda>l. if startsWith l sourceMappingURL then [] else l) (split (CHR 0x0A) t)
   \<and> length (split (CHR 0x0A) (stripSourceMapUrl t)) = length (split (CHR 0x0A) t)
   \<and> (\<forall>s. snd (readPolyfillFileContents env p) = Inr s \<longrightarrow>
         (\<exists>t'. readFileSync env p = Some t' \<and> s = stripSourceMapUrl t'))
   \<and> (\<forall>src. snd (readContent env (Paths ps)) = Inr src \<longrightarrow>
         (\<exists>ts. map (readFileSync env) ps = map Some ts
              \<and> src = concat (map stripSourceMapUrl ts)))"
proof -
  have 1: "split (CHR 0x0A) (stripSourceMapUrl t) =
     map (\<lambda>l. if startsWith l sourceMappingURL then [] else l) (split (CHR 0x0A) t)"
    using split_stripSourceMapUrl [of t] by (simp add: blank_directive_def [abs_def])
  then have 2: "length (split (CHR 0x0A) (stripSourceMapUrl t)) = length (split (CHR 0x0A) t)"
    by simp
  from 1 2 show ?thesis
    using readPolyfillFileContents_Inr readContent_Paths by blast
qed

text \<open>A directive on the second of three lines; two such files read as one entry.\<close>

theorem sourceMappingURL_lines_blanked_witness:
  "stripSourceMapUrl ''a;\<newline>//# sourceMappingURL=a.js.map\<newline>b;'' = ''a;\<newline>\<newline>b;''
   \<and> snd (readContent env_sourceMap (Paths [''x.js'', ''y.js''])) =
       Inr ''a;\<newline>\<newline>b;a;\<newline>\<newline>b;''"
proof -
  have h: "snd (readContent env_sourceMap (Paths [''x.js'', ''y.js''])) =
       Inr ''a;\<newline>\<newline>b;a;\<newline>\<newline>b;''"
    by (simp add: env_sourceMap_def eval_defs)
  have s: "stripSourceMapUrl ''a;\<newline>//# sourceMappingURL=a.js.map\<newline>b;'' = ''a;\<newline>\<newline>b;''"
    by (simp add: eval_defs)
  show ?thesis
    using sourceMappingURL_lines_blanked
            [of "''a;\<newline>//# sourceMappingURL=a.js.map\<newline>b;''" env_sourceMap "''x.js''" "[''x.js'', ''y.js'']"]
          h s
    by simp
qed

text \<open>
  C8. Let an entry of polyfillConfigs have its minify flag set, and let reading its
  sources give the text \<open>src\<close>. If Terser.minify rejects \<open>src\<close>, the call fails; it fails
  with that rejection whenever the entry is reached (it has a name and the entries before
  it give their files). Whenever the call succeeds, the content of the entry's file is
  the code Terser.minify returned for \<open>src\<close>: there is no fall-back to \<open>src\<close> itself.
\<close>

theorem minify_failure_is_fatal:
  assumes "polyfillConfigs env cfg = Inr (before @ c # after)"
    and "minify c" and "PolyfillConfig.path c = Some p"
    and "snd (readContent env p) = Inr src"
  shows "(Terser_minify env src = None \<longrightarrow> (\<exists>e. snd (createPolyfillsData env cfg) = Inl e))
       \<and> (Terser_minify env src = None \<and> PolyfillConfig.name c = Some n \<and> n \<noteq> [] \<and> p \<noteq> Path []
            \<and> snd (polyfillFiles env cfg before) = Inr fb \<longrightarrow>
          snd (createPolyfillsData env cfg) = Inl (MinifyFailure src))
       \<and> (\<forall>fs. snd (createPolyfillsData env cfg) = Inr fs \<longrightarrow>
            Terser_minify env src = Some (content (fs ! length before)))"
proof -
  note r = createPolyfillsData_snd [OF assms(1)]
  have C: "Terser_minify env src = Some (content (fs ! length before))"
    if "snd (createPolyfillsData env cfg) = Inr fs" for fs
  proof -
    from that have "snd (polyfillFile env cfg c) = Inr (fs ! length before)"
      unfolding r by (rule snd_for_each_Inr_nth)
    from polyfillFile_Inr [OF this] assms(2,3,4)
    have "snd (minified env True src) = Inr (content (fs ! length before))"
      by auto
    then show ?thesis by (rule minified_True)
  qed
  have A: "\<exists>e. snd (createPolyfillsData env cfg) = Inl e" if "Terser_minify env src = None"
    using that C by (cases "snd (createPolyfillsData env cfg)") auto
  have B: "snd (createPolyfillsData env cfg) = Inl (MinifyFailure src)"
    if "Terser_minify env src = None" "PolyfillConfig.name c = Some n" "n \<noteq> []" "p \<noteq> Path []"
       "snd (polyfillFiles env cfg before) = Inr fb"
  proof -
    have "snd (polyfillFile env cfg c) = Inl (MinifyFailure src)"
      using that assms by (intro polyfillFile_minify_Inl) auto
    with that(5) show ?thesis
      unfolding r polyfillFiles_def by (intro snd_for_each_first_Inl)
  qed
  from A B C show ?thesis by blast
qed

text \<open>core-js is read, then the minifier rejects the content of fetch: the call fails,
  and the core-js file is not returned either.\<close>

theorem minify_failure_is_fatal_witness:
  "snd (createPolyfillsData env_minify_fails cfg_fetch) = Inl (MinifyFailure ''f ();'')"
proof -
  let ?c1 = "polyfillConfig ''core-js'' (Some ''!('noModule' in HTMLScriptElement.prototype)'')
               (Path ''/nm/core-js-bundle/minified.js'') False None"
  let ?c2 = "polyfillConfig ''fetch'' (Some ''!('fetch' in window)'')
               (Paths [''/nm/whatwg-fetch/dist/fetch.umd.js'']) True None"
  have cs: "polyfillConfigs env_minify_fails cfg_fetch = Inr ([?c1] @ ?c2 # [])"
    by (simp add: env_minify_fails_def cfg_fetch_def eval_defs)
  have m: "minify ?c2" and p: "PolyfillConfig.path ?c2 = Some (Paths [''/nm/whatwg-fetch/dist/fetch.umd.js''])"
    and n: "PolyfillConfig.name ?c2 = Some ''fetch''"
    by simp_all
  have r: "snd (readContent env_minify_fails (Paths [''/nm/whatwg-fetch/dist/fetch.umd.js''])) = Inr ''f ();''"
    by (simp add: env_minify_fails_def eval_defs)
  have t: "Terser_minify env_minify_fails ''f ();'' = None"
    by (simp add: env_minify_fails_def eval_defs)
  have b: "snd (polyfillFiles env_minify_fails cfg_fetch [?c1]) =
             Inr [\<lparr> PolyfillFile.name = ''core-js'',
                    PolyfillFile.type = ''script'',
                    PolyfillFile.path = ''polyfills/core-js.f ().js'',
                    content = ''f ();'',
                    PolyfillFile.test = Some ''!('noModule' in HTMLScriptElement.prototype)'',
                    PolyfillFile.initializer = None \<rparr>]"
    by (simp add: env_minify_fails_def cfg_fetch_def eval_defs)
  from minify_failure_is_fatal [OF cs m p r, of "''fetch''"] t n b
  show ?thesis by simp
qed

text \<open>
  C9, as amended. An entry of polyfillConfigs (a built-in or a custom one) whose name is
  absent or empty, or whose path is absent or the empty string, makes the call fail: no
  array of files is returned. The exception is "A polyfill should have a name and a path
  property." whenever the entries before it give their files; otherwise it is the
  exception of the entries before it, and in every case it is the exception of the first
  entry that fails. That exception is thrown for exactly these entries: an entry with a
  non-empty name and an array of paths passes the check, also when the array is empty,
  and with the empty array and minify unset it gives, without a call to \<^verbatim>\<open>fs\<close>, a file
  with empty content.
\<close>

theorem entry_without_name_or_path:
  assumes "polyfillConfigs env cfg = Inr (before @ c # after)" and "lacks_name_or_path c"
  shows "(\<exists>e. snd (createPolyfillsData env cfg) = Inl e)
       \<and> (\<forall>fb. snd (polyfillFiles env cfg before) = Inr fb \<longrightarrow>
            snd (createPolyfillsData env cfg) =
              Inl (Error ''A polyfill should have a name and a path property.''))
       \<and> (\<forall>e. snd (polyfillFiles env cfg before) = Inl e \<longrightarrow>
            snd (createPolyfillsData env cfg) = Inl e)
       \<and> (\<forall>e. snd (createPolyfillsData env cfg) = Inl e \<longrightarrow>
            (\<exists>pre x post rs. before @ c # after = pre @ x # post
               \<and> snd (polyfillFiles env cfg pre) = Inr rs
               \<and> snd (polyfillFile env cfg x) = Inl e))
       \<and> (\<forall>c'. snd (polyfillFile env cfg c') =
                  Inl (Error ''A polyfill should have a name and a path property.'')
                \<longleftrightarrow> lacks_name_or_path c')
       \<and> (\<forall>c' n. PolyfillConfig.name c' = Some n \<and> n \<noteq> []
              \<and> PolyfillConfig.path c' = Some (Paths []) \<and> \<not> minify c' \<longrightarrow>
            polyfillFile env cfg c' =
              ([], Inr \<lparr> PolyfillFile.name = n,
                        PolyfillFile.type =
                          (case fileType c' of
                             None \<Rightarrow> fileTypes_SCRIPT env
                           | Some t \<Rightarrow> if t = [] then fileTypes_SCRIPT env else t),
                        PolyfillFile.path = filePath env cfg n [],
                        content = [],
                        PolyfillFile.test = PolyfillConfig.test c',
                        PolyfillFile.initializer = PolyfillConfig.initializer c' \<rparr>))"
proof -
  note r = createPolyfillsData_snd [OF assms(1)]
  have v: "snd (polyfillFile env cfg c) = Inl (Error ''A polyfill should have a name and a path property.'')"
    using assms(2) by (simp add: polyfillFile_validation)
  have A: "\<exists>e. snd (createPolyfillsData env cfg) = Inl e"
    unfolding r using v by (rule snd_for_each_Inl)
  have B: "snd (createPolyfillsData env cfg) =
              Inl (Error ''A polyfill should have a name and a path property.'')"
    if "snd (polyfillFiles env cfg before) = Inr fb" for fb
    using that v unfolding r polyfillFiles_def by (intro snd_for_each_first_Inl)
  have C: "snd (createPolyfillsData env cfg) = Inl e"
    if "snd (polyfillFiles env cfg before) = Inl e" for e
    using that unfolding r polyfillFiles_def by (rule snd_for_each_append_Inl)
  have D: "\<exists>pre x post rs. before @ c # after = pre @ x # post
               \<and> snd (polyfillFiles env cfg pre) = Inr rs
               \<and> snd (polyfillFile env cfg x) = Inl e"
    if "snd (createPolyfillsData env cfg) = Inl e" for e
    using that unfolding r polyfillFiles_def by (rule snd_for_each_Inl_first)
  from A B C D polyfillFile_validation polyfillFile_no_paths show ?thesis
    by blast
qed

text \<open>The second custom entry has no name. Where the first one is read without error,
  the exception is the one of line 220; where no file exists, it is the one of the first
  entry. An entry with a name and the empty array of paths gives a file with empty
  content.\<close>

theorem entry_without_name_or_path_witness:
  "snd (createPolyfillsData example_env cfg_custom_no_name) =
     Inl (Error ''A polyfill should have a name and a path property.'')
   \<and> snd (createPolyfillsData env_no_files cfg_custom_no_name) =
       Inl (Error ''Could not find a file at a.js'')
   \<and> (\<exists>f. polyfillFile example_env cfg_custom_no_name
               \<lparr> PolyfillConfig.name = Some ''x'', PolyfillConfig.path = Some (Paths []),
                 PolyfillConfig.test = None, fileType = None, minify = False,
                 PolyfillConfig.initializer = None \<rparr> = ([], Inr f)
          \<and> PolyfillFile.name f = ''x'' \<and> content f = [])"
proof -
  let ?a = "\<lparr> PolyfillConfig.name = Some ''a'', PolyfillConfig.path = Some (Path ''a.js''),
                        PolyfillConfig.test = None, fileType = None, minify = False,
                        PolyfillConfig.initializer = None \<rparr>"
  let ?b = "\<lparr> PolyfillConfig.name = None, PolyfillConfig.path = Some (Path ''b.js''),
                        PolyfillConfig.test = None, fileType = None, minify = False,
                        PolyfillConfig.initializer = None \<rparr>"
  let ?x = "\<lparr> PolyfillConfig.name = Some ''x'', PolyfillConfig.path = Some (Paths []),
           PolyfillConfig.test = None, fileType = None, minify = False,
           PolyfillConfig.initializer = None \<rparr>"
  have cs: "polyfillConfigs example_env cfg_custom_no_name = Inr ([?a] @ ?b # [])"
    and cs': "polyfillConfigs env_no_files cfg_custom_no_name = Inr ([?a] @ ?b # [])"
    by (simp_all add: cfg_custom_no_name_def env_no_files_def eval_defs)
  have l: "lacks_name_or_path ?b"
    by (simp add: lacks_name_or_path_def)
  have b: "snd (polyfillFiles example_env cfg_custom_no_name [?a]) =
             Inr [\<lparr> PolyfillFile.name = ''a'',
                    PolyfillFile.type = ''script'',
                    PolyfillFile.path = ''polyfills/a.f ().js'',
                    content = ''f ();'',
                    PolyfillFile.test = None,
                    PolyfillFile.initializer = None \<rparr>]"
    by (simp add: cfg_custom_no_name_def eval_defs)
  have b': "snd (polyfillFiles env_no_files cfg_custom_no_name [?a]) =
              Inl (Error ''Could not find a file at a.js'')"
    by (simp add: cfg_custom_no_name_def env_no_files_def eval_defs)
  have x: "PolyfillConfig.name ?x = Some ''x'' \<and> ''x'' \<noteq> []
      \<and> PolyfillConfig.path ?x = Some (Paths []) \<and> \<not> minify ?x"
    by simp
  have 1: "snd (createPolyfillsData example_env cfg_custom_no_name) =
     Inl (Error ''A polyfill should have a name and a path property.'')"
    using entry_without_name_or_path [OF cs l] b by blast
  have 2: "snd (createPolyfillsData env_no_files cfg_custom_no_name) =
       Inl (Error ''Could not find a file at a.js'')"
    using entry_without_name_or_path [OF cs' l] b' by blast
  have 3: "\<exists>f. polyfillFile example_env cfg_custom_no_name ?x = ([], Inr f)
          \<and> PolyfillFile.name f = ''x'' \<and> content f = []"
  proof -
    from entry_without_name_or_path [OF cs l] x
    have "polyfillFile example_env cfg_custom_no_name ?x =
       ([], Inr \<lparr> PolyfillFile.name = ''x'',
                 PolyfillFile.type = (case fileType ?x of
                             None \<Rightarrow> fileTypes_SCRIPT example_env
                           | Some t \<Rightarrow> if t = [] then fileTypes_SCRIPT example_env else t),
                 PolyfillFile.path = filePath example_env cfg_custom_no_name ''x'' [],
                 content = [],
                 PolyfillFile.test = PolyfillConfig.test ?x,
                 PolyfillFile.initializer = PolyfillConfig.initializer ?x \<rparr>)"
      by blast
    then show ?thesis by simp
  qed
  from 1 2 3 show ?thesis by blast
qed

text \<open>C9 as stated fails in two ways. An entry whose path is the empty array passes
  the check of line 219 and gives a file with empty content. And where an earlier entry
  fails first, the exception is not the one of line 220: here no file exists, and the
  call fails on the first custom entry.\<close>

theorem entry_without_name_or_path_counterexample:
  "snd (createPolyfillsData example_env cfg_custom_no_sources) =
     Inr [\<lparr> PolyfillFile.name = ''x'',
            PolyfillFile.type = ''script'',
            PolyfillFile.path = ''polyfills/x.js'',
            content = [],
            PolyfillFile.test = None,
            PolyfillFile.initializer = None \<rparr>]
   \<and> snd (createPolyfillsData env_no_files cfg_custom_no_name) =
       Inl (Error ''Could not find a file at a.js'')"
  by (simp add: cfg_custom_no_sources_def cfg_custom_no_name_def env_no_files_def eval_defs)

text \<open>
  C5, as amended. Let \<open>f\<close> be a file of a successful call, and \<open>f'\<close> a file with the same
  name of a second call with the same configuration and hash function (the files on
  disk may differ). The path of \<open>f\<close> is \<^verbatim>\<open>path.posix.join(dir, name + segment) + '.js'\<close>,
  where \<open>dir\<close> is \<^verbatim>\<open>cfg.polyfillsDir\<close>, or \<^verbatim>\<open>polyfills\<close> when that is absent or empty, and
  the segment is empty exactly when \<^verbatim>\<open>polyfills.hash\<close> is \<^verbatim>\<open>false\<close>, and otherwise a dot
  and the hash of the final content of \<open>f\<close>. posix.join normalizes: where the name is a
  plain path and the hash holds no slash, the path is the name, the segment and \<^verbatim>\<open>.js\<close>
  after what posix.join makes of the directory, which is \<^verbatim>\<open>dir/\<close> for a plain \<open>dir\<close>.
  Identical content gives identical paths; without hashing the paths are identical
  whatever the content; with hashing, a plain name and hashes without a slash, the
  paths differ exactly when the hashes of the contents differ.
\<close>

theorem output_path:
  assumes "snd (createPolyfillsData env cfg) = Inr fs" and "f \<in> set fs"
    and "snd (createPolyfillsData env' cfg) = Inr fs'" and "f' \<in> set fs'"
    and "createContentHash env' = createContentHash env"
    and "PolyfillFile.name f' = PolyfillFile.name f"
    and "dir = (case polyfillsDir cfg of
                  None \<Rightarrow> ''polyfills''
                | Some d \<Rightarrow> if d = [] then ''polyfills'' else d)"
  shows "(hash (polyfills_of cfg) = Some False \<longrightarrow>
            PolyfillFile.path f = posix_join dir (PolyfillFile.name f) @ ''.js'')
       \<and> (hash (polyfills_of cfg) \<noteq> Some False \<longrightarrow>
            PolyfillFile.path f =
              posix_join dir (PolyfillFile.name f @ ''.'' @ createContentHash env (content f))
              @ ''.js'')
       \<and> (hash (polyfills_of cfg) = Some False \<and> plain (PolyfillFile.name f) \<longrightarrow>
            PolyfillFile.path f = dir_prefix dir @ PolyfillFile.name f @ ''.js'')
       \<and> (hash (polyfills_of cfg) \<noteq> Some False \<and> plain (PolyfillFile.name f)
            \<and> CHR ''/'' \<notin> set (createContentHash env (content f)) \<longrightarrow>
            PolyfillFile.path f =
              dir_prefix dir @ PolyfillFile.name f @ ''.''
              @ createContentHash env (content f) @ ''.js'')
       \<and> (plain dir \<longrightarrow> dir_prefix dir = dir @ ''/'')
       \<and> (content f' = content f \<longrightarrow> PolyfillFile.path f' = PolyfillFile.path f)
       \<and> (hash (polyfills_of cfg) = Some False \<longrightarrow> PolyfillFile.path f' = PolyfillFile.path f)
       \<and> (hash (polyfills_of cfg) \<noteq> Some False \<and> plain (PolyfillFile.name f)
            \<and> CHR ''/'' \<notin> set (createContentHash env (content f))
            \<and> CHR ''/'' \<notin> set (createContentHash env (content f')) \<longrightarrow>
            (PolyfillFile.path f' = PolyfillFile.path f
               \<longleftrightarrow> createContentHash env (content f') = createContentHash env (content f)))"
proof -
  from createPolyfillsData_file [OF assms(1,2)] createPolyfillsData_file [OF assms(3,4)]
  obtain c c' where "snd (polyfillFile env cfg c) = Inr f"
    and "snd (polyfillFile env' cfg c') = Inr f'"
    by blast
  then have p: "PolyfillFile.path f = filePath env cfg (PolyfillFile.name f) (content f)"
    and p': "PolyfillFile.path f' = filePath env' cfg (PolyfillFile.name f') (content f')"
    by (simp_all add: polyfillFile_path)
  note H = assms(5) and n = assms(6) and dir = assms(7)
  have d: "dir \<noteq> []"
    unfolding dir by (simp split: option.splits)
  have 1: "PolyfillFile.path f = posix_join dir (PolyfillFile.name f) @ ''.js''"
    if "hash (polyfills_of cfg) = Some False"
    using that p by (simp add: filePath_def dir)
  have 2: "PolyfillFile.path f =
              posix_join dir (PolyfillFile.name f @ ''.'' @ createContentHash env (content f))
              @ ''.js''"
    if "hash (polyfills_of cfg) \<noteq> Some False"
    using that p by (simp add: filePath_def dir)
  have h2: "PolyfillFile.path f' =
              posix_join dir (PolyfillFile.name f @ ''.'' @ createContentHash env (content f'))
              @ ''.js''"
    if "hash (polyfills_of cfg) \<noteq> Some False"
    using that p' by (simp add: filePath_def H n dir)
  have 3: "PolyfillFile.path f = dir_prefix dir @ PolyfillFile.name f @ ''.js''"
    if "hash (polyfills_of cfg) = Some False" "plain (PolyfillFile.name f)"
    using 1 that d by (simp add: posix_join_prefix)
  have 4: "PolyfillFile.path f =
              dir_prefix dir @ PolyfillFile.name f @ ''.''
              @ createContentHash env (content f) @ ''.js''"
    if "hash (polyfills_of cfg) \<noteq> Some False" "plain (PolyfillFile.name f)"
       "CHR ''/'' \<notin> set (createContentHash env (content f))"
    using 2 [OF that(1)] d plain_name_hash [OF that(2,3)] by (simp add: posix_join_prefix)
  have h4: "PolyfillFile.path f' =
              dir_prefix dir @ PolyfillFile.name f @ ''.''
              @ createContentHash env (content f') @ ''.js''"
    if "hash (polyfills_of cfg) \<noteq> Some False" "plain (PolyfillFile.name f)"
       "CHR ''/'' \<notin> set (createContentHash env (content f'))"
    using h2 [OF that(1)] d plain_name_hash [OF that(2,3)] by (simp add: posix_join_prefix)
  have 5: "dir_prefix dir = dir @ ''/''" if "plain dir"
    using that by (rule dir_prefix_plain)
  have 6: "PolyfillFile.path f' = PolyfillFile.path f" if "content f' = content f"
    using that p p' by (simp add: filePath_def H n)
  have 7: "PolyfillFile.path f' = PolyfillFile.path f" if "hash (polyfills_of cfg) = Some False"
    using that p p' by (simp add: filePath_def H n)
  have 8: "PolyfillFile.path f' = PolyfillFile.path f
               \<longleftrightarrow> createContentHash env (content f') = createContentHash env (content f)"
    if "hash (polyfills_of cfg) \<noteq> Some False" "plain (PolyfillFile.name f)"
       "CHR ''/'' \<notin> set (createContentHash env (content f))"
       "CHR ''/'' \<notin> set (createContentHash env (content f'))"
    using 4 [OF that(1,2,3)] h4 [OF that(1,2,4)] by simp
  from 1 2 3 4 5 6 7 8 show ?thesis by blast
qed

text \<open>The core-js file of \<open>cfg_dot_dir_hash\<close>, before and after a change to the files:
  the directory \<^verbatim>\<open>./polyfills\<close> is normalized, the hash segment is there, and the hashes
  and the paths differ.\<close>

theorem output_path_witness:
  "snd (createPolyfillsData example_env cfg_dot_dir_hash) =
     Inr [\<lparr> PolyfillFile.name = ''core-js'', PolyfillFile.type = ''script'',
            PolyfillFile.path = ''polyfills/'' @ ''core-js'' @ ''.'' @ ''f ()'' @ ''.js'',
            content = ''f ();'',
            PolyfillFile.test = Some (noModuleSupportTest example_env),
            PolyfillFile.initializer = None \<rparr>]
   \<and> snd (createPolyfillsData env_changed cfg_dot_dir_hash) =
     Inr [\<lparr> PolyfillFile.name = ''core-js'', PolyfillFile.type = ''script'',
            PolyfillFile.path = ''polyfills/'' @ ''core-js'' @ ''.'' @ ''g ()'' @ ''.js'',
            content = ''g ();'',
            PolyfillFile.test = Some (noModuleSupportTest example_env),
            PolyfillFile.initializer = None \<rparr>]
   \<and> hash (polyfills_of cfg_dot_dir_hash) \<noteq> Some False
   \<and> dir_prefix ''./polyfills'' = ''polyfills/'' \<and> plain ''core-js''
   \<and> createContentHash example_env ''g ();'' \<noteq> createContentHash example_env ''f ();''"
proof -
  let ?f = "\<lambda>p c. \<lparr> PolyfillFile.name = ''core-js'', PolyfillFile.type = ''script'',
            PolyfillFile.path = p, content = c,
            PolyfillFile.test = Some (noModuleSupportTest example_env),
            PolyfillFile.initializer = None \<rparr>"
  have pl: "plain ''core-js''"
    by (simp add: plain_def)
  have dp: "dir_prefix ''./polyfills'' = ''polyfills/''"
    by (simp add: dir_prefix_def)
  have h: "hash (polyfills_of cfg_dot_dir_hash) \<noteq> Some False"
    and d: "''./polyfills'' = (case polyfillsDir cfg_dot_dir_hash of
                  None \<Rightarrow> ''polyfills''
                | Some d \<Rightarrow> if d = [] then ''polyfills'' else d)"
    by (simp_all add: cfg_dot_dir_hash_def eval_defs)
  have H: "createContentHash env_changed = createContentHash example_env"
    by (simp add: env_changed_def)
  have c: "createContentHash example_env ''f ();'' = ''f ()''"
    "createContentHash example_env ''g ();'' = ''g ()''"
    by (simp_all add: example_env_def)
  have f: "snd (createPolyfillsData example_env cfg_dot_dir_hash) =
             Inr [?f ''polyfills/core-js.f ().js'' ''f ();'']"
    by (simp add: cfg_dot_dir_hash_def eval_defs)
  have f': "snd (createPolyfillsData env_changed cfg_dot_dir_hash) =
              Inr [?f ''polyfills/core-js.g ().js'' ''g ();'']"
    by (simp add: cfg_dot_dir_hash_def env_changed_def eval_defs)
  have m: "?f ''polyfills/core-js.f ().js'' ''f ();'' \<in> set [?f ''polyfills/core-js.f ().js'' ''f ();'']"
    and m': "?f ''polyfills/core-js.g ().js'' ''g ();'' \<in> set [?f ''polyfills/core-js.g ().js'' ''g ();'']"
    by simp_all
  from output_path [OF f m f' m' H _ d] f f' h dp pl c
  show ?thesis by simp
qed

text \<open>C5 as stated fails in two ways. posix.join normalizes the path: with the
  directory \<^verbatim>\<open>./polyfills\<close> the path is not \<^verbatim>\<open>./polyfills/core-js.js\<close>. And whatever the
  hash function is, unless its values are of unbounded length there is a change of the
  content of core-js that leaves the path as it was.\<close>

theorem output_path_counterexample:
  "snd (createPolyfillsData example_env cfg_dot_dir) =
     Inr [\<lparr> PolyfillFile.name = ''core-js'', PolyfillFile.type = ''script'',
            PolyfillFile.path = ''polyfills/core-js.js'', content = ''f ();'',
            PolyfillFile.test = Some ''!('noModule' in HTMLScriptElement.prototype)'',
            PolyfillFile.initializer = None \<rparr>]
   \<and> (\<forall>H n. (\<exists>s. n < length (H s))
         \<or> (\<exists>t t' f f'.
               snd (createPolyfillsData (env_with H t) cfg_coreJs) = Inr [f]
             \<and> snd (createPolyfillsData (env_with H t') cfg_coreJs) = Inr [f']
             \<and> content f \<noteq> content f'
             \<and> PolyfillFile.path f = PolyfillFile.path f'))"
proof
  show "snd (createPolyfillsData example_env cfg_dot_dir) =
     Inr [\<lparr> PolyfillFile.name = ''core-js'', PolyfillFile.type = ''script'',
            PolyfillFile.path = ''polyfills/core-js.js'', content = ''f ();'',
            PolyfillFile.test = Some ''!('noModule' in HTMLScriptElement.prototype)'',
            PolyfillFile.initializer = None \<rparr>]"
    by (simp add: cfg_dot_dir_def eval_defs)
  show "\<forall>H n. (\<exists>s. n < length (H s))
         \<or> (\<exists>t t' f f'.
               snd (createPolyfillsData (env_with H t) cfg_coreJs) = Inr [f]
             \<and> snd (createPolyfillsData (env_with H t') cfg_coreJs) = Inr [f']
             \<and> content f \<noteq> content f'
             \<and> PolyfillFile.path f = PolyfillFile.path f')"
  proof (intro allI)
    fix H :: "string \<Rightarrow> string" and n :: nat
    show "(\<exists>s. n < length (H s))
         \<or> (\<exists>t t' f f'.
               snd (createPolyfillsData (env_with H t) cfg_coreJs) = Inr [f]
             \<and> snd (createPolyfillsData (env_with H t') cfg_coreJs) = Inr [f']
             \<and> content f \<noteq> content f'
             \<and> PolyfillFile.path f = PolyfillFile.path f')"
    proof (cases "\<exists>s. n < length (H s)")
      case True
      then show ?thesis by blast
    next
      case False
      then have "\<forall>s. length (H s) \<le> n"
        by (simp add: not_less)
      from bounded_hash_collides_replicate [OF this] obtain j k
        where jk: "j \<noteq> k" and e: "H (replicate j (CHR ''a'')) = H (replicate k (CHR ''a''))"
        by blast
      let ?t = "replicate j (CHR ''a'')" and ?t' = "replicate k (CHR ''a'')"
      from jk have ne: "?t \<noteq> ?t'"
        by (metis length_replicate)
      have "\<exists>f f'.
               snd (createPolyfillsData (env_with H ?t) cfg_coreJs) = Inr [f]
             \<and> snd (createPolyfillsData (env_with H ?t') cfg_coreJs) = Inr [f']
             \<and> content f \<noteq> content f'
             \<and> PolyfillFile.path f = PolyfillFile.path f'"
        unfolding coreJs_alone stripSourceMapUrl_replicate using ne e by simp
      then show ?thesis by blast
    qed
  qed
qed

end
